theory Spec2Isabelle
  imports Complex_Main "HOL-Library.Char_ord" "HOL-Library.List_Lexorder"
begin

section \<open>Python values, errors and data frames\<close>

text \<open>
  The pipeline is Python over pandas data frames. Exceptions are values of type
  \<open>error\<close>; a function that may raise returns \<open>error + 'a\<close> with \<open>Inl\<close> for the
  exception. Python floats are modelled as exact reals: the rounding of binary floating
  point is not part of this model, and every concrete input used below is chosen so that
  the float computation is exact or the comparison is far from a rounding boundary. The
  one exception is the product \<open>adjustment * 0.7\<close> (and \<open>* 0.3\<close>) of the rule generator,
  an integer times a float constant that is truncated to an integer at once: there the
  rounding decides the result for small integers already, and the product is computed as
  binary64 does.
\<close>

datatype error =
    StopIteration
  | KeyError string
  | IndexError
  | TypeError
  | AttributeError
  | OverflowError
  | ValueError string

text \<open>
  A cell of a data frame is a number, a text, or missing (\<open>None\<close> / \<open>NaN\<close>). A column
  is either numeric (dtype \<open>float64\<close> or \<open>int64\<close>: numbers, with \<open>NaN\<close> as \<open>None\<close>) or
  of dtype \<open>object\<close> (any cells). A frame has a row count and an ordered list of named
  columns; \<open>df[name]\<close> is the lookup \<open>map_of (cols df) name\<close>. The index is the default
  one (row positions).
\<close>

datatype cell = Num real | Str string | Null

datatype column = NumCol "real option list" | ObjCol "cell list"

record dataframe =
  nrows :: nat
  cols :: "(string \<times> column) list"

fun cell_of :: "real option \<Rightarrow> cell" where
  "cell_of None = Null"
| "cell_of (Some v) = Num v"

fun col_cells :: "column \<Rightarrow> cell list" where
  "col_cells (NumCol xs) = map cell_of xs"
| "col_cells (ObjCol cs) = cs"

fun is_numeric :: "column \<Rightarrow> bool" where
  "is_numeric (NumCol xs) = True"
| "is_numeric (ObjCol cs) = False"

fun is_Str :: "cell \<Rightarrow> bool" where
  "is_Str (Str s) = True"
| "is_Str c = False"

definition col_len :: "column \<Rightarrow> nat" where
  "col_len c = length (col_cells c)"

definition columns :: "dataframe \<Rightarrow> string list" where
  "columns df = map fst (cols df)"

text \<open>
  A frame is well formed when every column has one cell per row and no column name
  occurs twice.
\<close>

definition wf_frame :: "dataframe \<Rightarrow> bool" where
  "wf_frame df =
     (list_all (\<lambda>nc. col_len (snd nc) = nrows df) (cols df) \<and> distinct (columns df))"

text \<open>Running a list of fallible computations stops at the first exception.\<close>

fun collect :: "(error + 'a) list \<Rightarrow> error + 'a list" where
  "collect [] = Inr []"
| "collect (x # xs) =
     (case x of Inl e \<Rightarrow> Inl e
      | Inr v \<Rightarrow> (case collect xs of Inl e \<Rightarrow> Inl e | Inr vs \<Rightarrow> Inr (v # vs)))"


section \<open>Rule Evaluator: \<open>apply_scoring_rules\<close> (scoring.py)\<close>

text \<open>
  A scoring rule is a Python dict; the key \<open>threshold\<close> is present only on threshold
  rules, so reading it from a rule without one raises \<open>KeyError\<close>.
\<close>

record rule =
  variable :: string
  condition :: string
  threshold :: "real option"
  adjustment :: int
  description :: string

definition is_base :: "rule \<Rightarrow> bool" where
  "is_base r = (variable r = ''BASE'')"

definition is_threshold :: "rule \<Rightarrow> bool" where
  \<comment> \<open>\<open>condition.startswith('>')\<close>\<close>
  "is_threshold r = (take 1 (condition r) = ''>'')"

text \<open>
  \<open>df[variable] > threshold\<close>. On a numeric column \<open>NaN > t\<close> is false. On an object
  column pandas compares cell by cell: a missing cell gives false, a number is compared,
  and a text against a float raises \<open>TypeError\<close>.
\<close>

fun gt_cell :: "real \<Rightarrow> cell \<Rightarrow> error + bool" where
  "gt_cell t (Num v) = Inr (t < v)"
| "gt_cell t Null = Inr False"
| "gt_cell t (Str s) = Inl TypeError"

fun threshold_mask :: "column \<Rightarrow> real \<Rightarrow> error + bool list" where
  "threshold_mask (NumCol xs) t =
     Inr (map (\<lambda>x. case x of None \<Rightarrow> False | Some v \<Rightarrow> t < v) xs)"
| "threshold_mask (ObjCol cs) t = collect (map (gt_cell t) cs)"

text \<open>
  The \<open>present\<close> mask: \<open>df[variable] == 1\<close> when the dtype is \<open>float64\<close> or \<open>int64\<close>,
  \<open>df[variable].notna()\<close> otherwise.
\<close>

fun present_mask :: "column \<Rightarrow> bool list" where
  "present_mask (NumCol xs) = map (\<lambda>x. x = Some 1) xs"
| "present_mask (ObjCol cs) = map (\<lambda>c. c \<noteq> Null) cs"

definition add_where :: "bool list \<Rightarrow> int \<Rightarrow> int list \<Rightarrow> int list" where
  \<comment> \<open>\<open>scores[mask] += adjustment\<close>\<close>
  "add_where msk adj scores = map (\<lambda>(s, m). if m then s + adj else s) (zip scores msk)"

definition apply_rule :: "dataframe \<Rightarrow> rule \<Rightarrow> int list \<Rightarrow> error + int list" where
  "apply_rule df r scores =
     (if variable r = ''BASE'' then Inr scores
      else case map_of (cols df) (variable r) of
        None \<Rightarrow> Inr scores
      | Some c \<Rightarrow>
          if is_threshold r then
            (case threshold r of
               None \<Rightarrow> Inl (KeyError ''threshold'')
             | Some t \<Rightarrow>
                 (case threshold_mask c t of
                    Inl e \<Rightarrow> Inl e
                  | Inr msk \<Rightarrow> Inr (add_where msk (adjustment r) scores)))
          else if condition r = ''present'' then
            Inr (add_where (present_mask c) (adjustment r) scores)
          else Inr scores)"

fun apply_rules :: "dataframe \<Rightarrow> rule list \<Rightarrow> int list \<Rightarrow> error + int list" where
  "apply_rules df [] scores = Inr scores"
| "apply_rules df (r # rs) scores =
     (case apply_rule df r scores of
        Inl e \<Rightarrow> Inl e
      | Inr scores' \<Rightarrow> apply_rules df rs scores')"

definition apply_scoring_rules :: "dataframe \<Rightarrow> rule list \<Rightarrow> error + int list" where
  "apply_scoring_rules df rules =
     (case find is_base rules of
        None \<Rightarrow> Inl StopIteration
      | Some b \<Rightarrow> apply_rules df rules (replicate (nrows df) (adjustment b)))"

text \<open>
  The additive reading of the specification: the predicate of a rule on row \<open>i\<close>.
  A base rule, a rule on an absent column and a rule with any other condition never
  hold.
\<close>

definition cell_at :: "column \<Rightarrow> nat \<Rightarrow> cell" where
  "cell_at c i = col_cells c ! i"

definition predicate_holds :: "dataframe \<Rightarrow> rule \<Rightarrow> nat \<Rightarrow> bool" where
  "predicate_holds df r i =
     (\<not> is_base r \<and>
      (case map_of (cols df) (variable r) of
         None \<Rightarrow> False
       | Some c \<Rightarrow>
           if is_threshold r then
             (case (threshold r, cell_at c i) of
                (Some t, Num v) \<Rightarrow> t < v
              | _ \<Rightarrow> False)
           else if condition r = ''present'' then
             (if is_numeric c then cell_at c i = Num 1 else cell_at c i \<noteq> Null)
           else False))"

definition additive_score :: "dataframe \<Rightarrow> rule list \<Rightarrow> int \<Rightarrow> nat \<Rightarrow> int" where
  "additive_score df rules b i =
     b + sum_list (map (\<lambda>r. if predicate_holds df r i then adjustment r else 0) rules)"

text \<open>
  A threshold rule can be evaluated when it carries its threshold and its column, if the
  frame has it, holds no text.
\<close>

definition comparable :: "dataframe \<Rightarrow> rule \<Rightarrow> bool" where
  "comparable df r =
     (is_base r \<or> \<not> is_threshold r \<or>
      (case map_of (cols df) (variable r) of
         None \<Rightarrow> True
       | Some c \<Rightarrow> threshold r \<noteq> None \<and> list_all (\<lambda>x. \<not> is_Str x) (col_cells c)))"

text \<open>Two small inputs for the evaluator, used to exercise the statements below.\<close>

definition base_rule_1000 :: rule where
  "base_rule_1000 =
     \<lparr>variable = ''BASE'', condition = ''always'', threshold = None, adjustment = 1000,
      description = ''Start with base score''\<rparr>"

definition sample_frame :: dataframe where
  "sample_frame =
     \<lparr>nrows = 3,
      cols = [(''income'', NumCol [Some (9/10), Some (1/5), None]),
              (''region_east'', NumCol [Some 1, Some 0, Some 1]),
              (''note'', ObjCol [Str ''a'', Null, Str ''b''])]\<rparr>"

definition sample_rules :: "rule list" where
  "sample_rules =
     [base_rule_1000,
      \<lparr>variable = ''income'', condition = ''> 0.70'', threshold = Some (7/10), adjustment = 35,
       description = ''If income is above 0.70''\<rparr>,
      \<lparr>variable = ''income'', condition = ''> 0.30'', threshold = Some (3/10), adjustment = 15,
       description = ''If income is above 0.30''\<rparr>,
      \<lparr>variable = ''region_east'', condition = ''present'', threshold = None, adjustment = -20,
       description = ''If region is east''\<rparr>,
      \<lparr>variable = ''note'', condition = ''present'', threshold = None, adjustment = 7,
       description = ''If note is present''\<rparr>,
      \<lparr>variable = ''region_west'', condition = ''present'', threshold = None, adjustment = 50,
       description = ''If region is west''\<rparr>]"

definition text_frame :: dataframe where
  "text_frame = \<lparr>nrows = 1, cols = [(''segment'', ObjCol [Str ''gold''])]\<rparr>"

definition text_rules :: "rule list" where
  "text_rules =
     [base_rule_1000,
      \<lparr>variable = ''segment'', condition = ''> 0.50'', threshold = Some (1/2), adjustment = 10,
       description = ''If segment is above 0.50''\<rparr>]"


section \<open>Decile/Lift Analyzer: the decile table of \<open>run_analysis\<close> (analysis.py)\<close>

text \<open>
  \<open>pd.qcut(regression_scores, q=10, labels=['D1', ..., 'D10'])\<close>. The eleven bin edges
  are the quantiles \<open>0, 0.1, ..., 1\<close> of the scores with linear interpolation: edge \<open>k\<close>
  of the sorted scores \<open>s\<close> of length \<open>n\<close> sits at the virtual position \<open>(n - 1) * k / 10\<close>.
\<close>

definition decile_edge :: "real list \<Rightarrow> nat \<Rightarrow> real" where
  "decile_edge s k =
     (let h = (length s - 1) * k;
          lo = h div 10;
          hi = min (lo + 1) (length s - 1)
      in s ! lo + (real (h mod 10) / 10) * (s ! hi - s ! lo))"

definition bin_edges :: "real list \<Rightarrow> real list" where
  "bin_edges x = map (decile_edge (sort x)) [0..<11]"

text \<open>
  Bins are right-closed. \<open>searchsorted(side='left')\<close> on the sorted edges returns the
  number of edges strictly below the value; \<open>include_lowest\<close> moves a value equal to the
  first edge into bin 1. A value in no bin (id 0 or 11) gets the missing category.
\<close>

definition searchsorted_left :: "real list \<Rightarrow> real \<Rightarrow> nat" where
  "searchsorted_left bins v = length (filter (\<lambda>e. e < v) bins)"

definition bin_id :: "real list \<Rightarrow> real \<Rightarrow> nat" where
  "bin_id bins v = (if v = hd bins then 1 else searchsorted_left bins v)"

definition bin_code :: "real list \<Rightarrow> real \<Rightarrow> nat option" where
  "bin_code bins v =
     (let i = bin_id bins v in if i = length bins \<or> i = 0 then None else Some (i - 1))"

text \<open>
  \<open>qcut\<close> raises \<open>ValueError\<close> when two edges coincide. On an empty input every edge is
  \<open>NaN\<close> and the same error is raised.
\<close>

definition qcut :: "real list \<Rightarrow> error + nat option list" where
  "qcut x =
     (if x = [] then Inl (ValueError ''Bin edges must be unique'')
      else let bins = bin_edges x
           in if \<not> distinct bins then Inl (ValueError ''Bin edges must be unique'')
              else Inr (map (bin_code bins) x))"

definition decile_labels :: "string list" where
  "decile_labels = [''D1'', ''D2'', ''D3'', ''D4'', ''D5'', ''D6'', ''D7'', ''D8'', ''D9'', ''D10'']"

fun label_of :: "nat option \<Rightarrow> string" where
  "label_of None = ''nan''"
| "label_of (Some j) = decile_labels ! j"

text \<open>\<open>unique()\<close> keeps the distinct values in the order of their first appearance.\<close>

fun unique :: "'a list \<Rightarrow> 'a list" where
  "unique [] = []"
| "unique (x # xs) = x # unique (filter (\<lambda>y. y \<noteq> x) xs)"

text \<open>
  A float that is \<open>NaN\<close> or infinite is \<open>None\<close>: the mean of no values, and a division
  by zero.
\<close>

definition mean :: "real list \<Rightarrow> real option" where
  "mean xs = (if xs = [] then None else Some (sum_list xs / real (length xs)))"

definition fdiv :: "real option \<Rightarrow> real option \<Rightarrow> real option" where
  "fdiv a b =
     (case (a, b) of
        (Some x, Some y) \<Rightarrow> if y = 0 then None else Some (x / y)
      | _ \<Rightarrow> None)"

text \<open>
  \<open>pd.Series(y.values).groupby(deciles)\<close>: the targets of the rows whose score fell into
  bin \<open>j\<close>. Grouping by a categorical yields one group per category \<open>D1 .. D10\<close>, in
  category order, also for a category no row fell into.
\<close>

definition group_values :: "real list \<Rightarrow> nat option list \<Rightarrow> nat \<Rightarrow> real list" where
  "group_values y codes j = map fst (filter (\<lambda>vc. snd vc = Some j) (zip y codes))"

record decile_record =
  decile :: string
  count :: nat
  response_rate :: "real option"
  lift :: "real option"

text \<open>
  The frame \<open>response_rates\<close> is built from three columns: \<open>deciles.unique()\<close>, an array
  in order of first appearance, and the two grouped series, indexed \<open>D1 .. D10\<close>. The
  array is laid against the index of the series position by position, and the
  constructor raises \<open>ValueError\<close> unless it has the length of that index. Grouping
  raises \<open>ValueError\<close> when targets and bins differ in length. The column
  \<open>lift\<close> is then \<open>response_rate / baseline_rate\<close> with \<open>baseline_rate = y.mean()\<close>.
\<close>

definition response_rates :: "real list \<Rightarrow> nat option list \<Rightarrow> error + decile_record list" where
  "response_rates y codes =
     (let labels = unique codes
      in if length y \<noteq> length codes
         then Inl (ValueError ''Grouper and axis must be same length'')
         else if length labels \<noteq> 10
         then Inl (ValueError ''array length does not match index length'')
         else Inr (map (\<lambda>j. \<lparr>decile = label_of (labels ! j),
                              count = length (group_values y codes j),
                              response_rate = mean (group_values y codes j),
                              lift = fdiv (mean (group_values y codes j)) (mean y)\<rparr>)
                    [0..<10]))"

definition decile_table :: "real list \<Rightarrow> real list \<Rightarrow> error + decile_record list" where
  "decile_table y regression_scores =
     (case qcut regression_scores of
        Inl e \<Rightarrow> Inl e
      | Inr codes \<Rightarrow> response_rates y codes)"


text \<open>
  A run of one hundred rows, listed by descending score \<open>1.00, 0.99, ..., 0.01\<close>, whose
  ten highest-scored rows are the only responders.
\<close>

definition scores_ascending :: "real list" where
  "scores_ascending = map (\<lambda>j. real (Suc j) / 100) [0..<100]"

definition scores_descending :: "real list" where
  "scores_descending = rev scores_ascending"

definition targets_top_ten :: "real list" where
  "targets_top_ten = replicate 10 1 @ replicate 90 0"

definition codes_descending :: "nat option list" where
  "codes_descending = concat (map (\<lambda>j. replicate 10 (Some j)) [9, 8, 7, 6, 5, 4, 3, 2, 1, 0])"

definition edges_descending :: "real list" where
  "edges_descending = [1/100, 109/1000, 26/125, 307/1000, 203/500, 101/200, 151/250, 703/1000, 401/500, 901/1000, 1]"

definition table_descending :: "decile_record list" where
  "table_descending =
     [\<lparr>decile = ''D10'', count = 10, response_rate = Some 0, lift = Some 0\<rparr>,
      \<lparr>decile = ''D9'', count = 10, response_rate = Some 0, lift = Some 0\<rparr>,
      \<lparr>decile = ''D8'', count = 10, response_rate = Some 0, lift = Some 0\<rparr>,
      \<lparr>decile = ''D7'', count = 10, response_rate = Some 0, lift = Some 0\<rparr>,
      \<lparr>decile = ''D6'', count = 10, response_rate = Some 0, lift = Some 0\<rparr>,
      \<lparr>decile = ''D5'', count = 10, response_rate = Some 0, lift = Some 0\<rparr>,
      \<lparr>decile = ''D4'', count = 10, response_rate = Some 0, lift = Some 0\<rparr>,
      \<lparr>decile = ''D3'', count = 10, response_rate = Some 0, lift = Some 0\<rparr>,
      \<lparr>decile = ''D2'', count = 10, response_rate = Some 0, lift = Some 0\<rparr>,
      \<lparr>decile = ''D1'', count = 10, response_rate = Some 1, lift = Some 10\<rparr>]"


section \<open>Configuration (2_configure.py)\<close>

text \<open>
  The analysis configuration is a dict with the target, the two variable lists and the
  per-variable details. The details of a variable are a dict again; every key may be
  absent. The code reads the \<open>range\<close> entry as a dict with optional keys \<open>min\<close> and
  \<open>max\<close>; the configuration page stores a two-element list there.
\<close>

datatype range_cfg = RangeDict "real option" "real option" | RangeList "real list"

record var_config =
  vtype :: "string option"
  has_order :: bool
  value_order :: "string list option"
  direction :: "string option"
  vrange :: "range_cfg option"

record config =
  target_variable :: string
  categorical_variables :: "string list"
  numerical_variables :: "string list"
  variable_details :: "(string \<times> var_config) list"
  source_table :: "string option"

definition no_details :: var_config where
  "no_details = \<lparr>vtype = None, has_order = False, value_order = None, direction = None,
                  vrange = None\<rparr>"

definition details_of :: "config \<Rightarrow> string \<Rightarrow> var_config" where
  \<comment> \<open>\<open>config['variable_details'].get(name, {})\<close>\<close>
  "details_of cfg name =
     (case map_of (variable_details cfg) name of None \<Rightarrow> no_details | Some d \<Rightarrow> d)"


section \<open>Rule Generator: \<open>generate_scoring_rules\<close> (scoring.py)\<close>

text \<open>\<open>int(x)\<close> on a float truncates toward zero.\<close>

definition py_int :: "real \<Rightarrow> int" where
  "py_int x = (if 0 \<le> x then \<lfloor>x\<rfloor> else \<lceil>x\<rceil>)"

text \<open>
  The format \<open>:.2f\<close>: sign, integer part, two decimals, rounded to the nearest hundredth
  (ties to even).
\<close>

definition round_half_even :: "real \<Rightarrow> int" where
  "round_half_even x =
     (let f = \<lfloor>x\<rfloor>; d = x - of_int f
      in if d < 1/2 then f else if 1/2 < d then f + 1 else if even f then f else f + 1)"

definition digit :: "nat \<Rightarrow> char" where
  "digit d = ''0123456789'' ! d"

fun digits :: "nat \<Rightarrow> string" where
  "digits n = (if n < 10 then [digit n] else digits (n div 10) @ [digit (n mod 10)])"

definition two_decimals :: "real \<Rightarrow> string" where
  "two_decimals x =
     (let n = nat (round_half_even (\<bar>x\<bar> * 100))
      in (if x < 0 then [CHR ''-''] else []) @ digits (n div 100) @ [CHR ''.''] @
         [digit (n mod 100 div 10), digit (n mod 10)])"

definition var_base_of :: "string \<Rightarrow> string" where
  \<comment> \<open>\<open>feature_name.split('_')[0]\<close>\<close>
  "var_base_of name = takeWhile (\<lambda>c. c \<noteq> CHR ''_'') name"

definition category_of :: "string \<Rightarrow> string" where
  \<comment> \<open>\<open>'_'.join(feature_name.split('_')[1:])\<close>\<close>
  "category_of name = drop 1 (dropWhile (\<lambda>c. c \<noteq> CHR ''_'') name)"

text \<open>
  \<open>df[feature_name].min()\<close> and \<open>.max()\<close> skip missing cells. On a numeric column the
  result is a number. On an object column the cells are compared as Python objects:
  numbers give a number, texts without any missing cell give a text, and any other mix
  raises \<open>TypeError\<close>. The functions are used on columns with a non-missing cell only.
\<close>

definition present_values :: "real option list \<Rightarrow> real list" where
  "present_values xs = map the (filter (\<lambda>x. x \<noteq> None) xs)"

fun num_of :: "cell \<Rightarrow> real" where
  "num_of (Num v) = v"
| "num_of c = 0"

fun str_of :: "cell \<Rightarrow> string" where
  "str_of (Str s) = s"
| "str_of c = []"

fun is_Num :: "cell \<Rightarrow> bool" where
  "is_Num (Num v) = True"
| "is_Num c = False"

definition reduce :: "('a \<Rightarrow> 'a \<Rightarrow> 'a) \<Rightarrow> 'a list \<Rightarrow> 'a" where
  "reduce f xs = fold f (tl xs) (hd xs)"

definition col_extreme ::
  "(real \<Rightarrow> real \<Rightarrow> real) \<Rightarrow> (string \<Rightarrow> string \<Rightarrow> string) \<Rightarrow> column \<Rightarrow> error + cell" where
  "col_extreme pick pick_text c =
     (case c of
        NumCol xs \<Rightarrow> Inr (Num (reduce pick (present_values xs)))
      | ObjCol cs \<Rightarrow>
          (let present = filter (\<lambda>x. x \<noteq> Null) cs
           in if list_all is_Num present then Inr (Num (reduce pick (map num_of present)))
              else if list_all is_Str cs then Inr (Str (reduce pick_text (map str_of cs)))
              else Inl TypeError))"

definition col_min :: "column \<Rightarrow> error + cell" where
  "col_min c = col_extreme min min c"

definition col_max :: "column \<Rightarrow> error + cell" where
  "col_max c = col_extreme max max c"

definition notna_any :: "column \<Rightarrow> bool" where
  \<comment> \<open>\<open>pd.notna(df[feature_name]).any()\<close>\<close>
  "notna_any c = list_ex (\<lambda>x. x \<noteq> Null) (col_cells c)"

text \<open>
  \<open>var_range = var_config.get('range', {})\<close>, then
  \<open>var_range.get('min', df[feature_name].min())\<close> and the same for \<open>max\<close>. A list has
  no method \<open>get\<close> (\<open>AttributeError\<close>). The default argument is evaluated whether or not
  the key is present.
\<close>

definition configured_bounds :: "var_config \<Rightarrow> real option \<times> real option" where
  "configured_bounds vc =
     (case vrange vc of Some (RangeDict a b) \<Rightarrow> (a, b) | _ \<Rightarrow> (None, None))"

definition range_bounds :: "var_config \<Rightarrow> column \<Rightarrow> error + cell \<times> cell" where
  "range_bounds vc c =
     (case vrange vc of
        Some (RangeList l) \<Rightarrow> Inl AttributeError
      | r \<Rightarrow>
          (case col_min c of
             Inl e \<Rightarrow> Inl e
           | Inr dmin \<Rightarrow>
               (case col_max c of
                  Inl e \<Rightarrow> Inl e
                | Inr dmax \<Rightarrow>
                    Inr (case fst (configured_bounds vc) of None \<Rightarrow> dmin | Some a \<Rightarrow> Num a,
                         case snd (configured_bounds vc) of None \<Rightarrow> dmax | Some b \<Rightarrow> Num b))))"

text \<open>
  \<open>int(adjustment * 0.7)\<close> and \<open>int(adjustment * 0.3)\<close>: a Python integer times a float
  constant, the float product truncated toward zero. The integer is first converted to the
  nearest float (\<open>OverflowError\<close> when that is beyond the largest float). The constant
  is the binary64 number nearest to the decimal literal, a fraction \<open>m / 2 ^ k\<close>:
  \<open>0.7\<close> is \<open>3152519739159347 / 2 ^ 52\<close> and \<open>0.3\<close> is \<open>5404319552844595 / 2 ^ 54\<close>. The
  float product is the exact product rounded to 53 significant bits, ties to even; it
  neither overflows nor underflows, the constant being below 1 and the other factor an
  integer. \<open>round53 p\<close> rounds a natural number to 53 significant bits, and rounding
  \<open>p / 2 ^ k\<close> is rounding \<open>p\<close>. So \<open>90 * 0.7\<close> is \<open>62.99999999999999\<close> and its
  truncation is 62.
\<close>

fun excess_bits :: "nat \<Rightarrow> nat" where
  "excess_bits p = (if p < 2 ^ 53 then 0 else Suc (excess_bits (p div 2)))"

declare excess_bits.simps [simp del]

definition round53 :: "nat \<Rightarrow> nat" where
  "round53 p =
     (let s = excess_bits p; q = p div 2 ^ s; r = p mod 2 ^ s
      in if 2 ^ s < 2 * r \<or> (2 * r = 2 ^ s \<and> odd q) then (q + 1) * 2 ^ s else q * 2 ^ s)"

definition seven_tenths :: "nat \<times> nat" where
  \<comment> \<open>the float \<open>0.7\<close>, as numerator and binary exponent of the denominator\<close>
  "seven_tenths = (3152519739159347, 52)"

definition three_tenths :: "nat \<times> nat" where
  \<comment> \<open>the float \<open>0.3\<close>\<close>
  "three_tenths = (5404319552844595, 54)"

definition float_of_int :: "int \<Rightarrow> error + int" where
  \<comment> \<open>the float nearest to a Python integer; the float is integer-valued\<close>
  "float_of_int n =
     (let m = round53 (nat \<bar>n\<bar>)
      in if 2 ^ 1024 \<le> m then Inl OverflowError else Inr (sgn n * int m))"

definition int_of_product :: "int \<Rightarrow> nat \<times> nat \<Rightarrow> error + int" where
  \<comment> \<open>\<open>int(n * c)\<close> for the float constant \<open>c\<close>\<close>
  "int_of_product n c =
     (case float_of_int n of
        Inl e \<Rightarrow> Inl e
      | Inr x \<Rightarrow> Inr (sgn x * int (round53 (nat \<bar>x\<bar> * fst c) div 2 ^ snd c)))"

definition threshold_rule :: "string \<Rightarrow> real \<Rightarrow> int \<Rightarrow> rule" where
  "threshold_rule feature_name t adj =
     \<lparr>variable = feature_name,
      condition = ''> '' @ two_decimals t,
      threshold = Some t,
      adjustment = adj,
      description = ''If '' @ var_base_of feature_name @ '' is above '' @ two_decimals t\<rparr>"

text \<open>
  The body of the loop over the features, in two parts: the rules appended for a feature
  once its \<open>adjustment\<close> is known, and the loop body itself, which skips a weak
  coefficient and computes \<open>adjustment = int(coefficient * scale_factor)\<close>.
\<close>

definition var_type_of :: "config \<Rightarrow> string \<Rightarrow> string" where
  \<comment> \<open>\<open>var_config.get('type', 'categorical')\<close> for the variable a feature is named after\<close>
  "var_type_of cfg feature_name =
     (case vtype (details_of cfg (var_base_of feature_name)) of
        None \<Rightarrow> ''categorical''
      | Some t \<Rightarrow> t)"

definition adjusted_rules :: "dataframe \<Rightarrow> config \<Rightarrow> string \<Rightarrow> int \<Rightarrow> error + rule list" where
  "adjusted_rules df cfg feature_name adj =
     (if var_type_of cfg feature_name = ''numerical'' then
        (case map_of (cols df) feature_name of
           None \<Rightarrow> Inl (KeyError feature_name)
         | Some c \<Rightarrow>
             if notna_any c then
               (case range_bounds (details_of cfg (var_base_of feature_name)) c of
                  Inl e \<Rightarrow> Inl e
                | Inr (Num min_val, Num max_val) \<Rightarrow>
                    (case int_of_product adj seven_tenths of
                       Inl e \<Rightarrow> Inl e
                     | Inr high_adj \<Rightarrow>
                         (case int_of_product adj three_tenths of
                            Inl e \<Rightarrow> Inl e
                          | Inr med_adj \<Rightarrow>
                              Inr [threshold_rule feature_name
                                     (min_val + 7/10 * (max_val - min_val)) high_adj,
                                   threshold_rule feature_name
                                     (min_val + 3/10 * (max_val - min_val)) med_adj]))
                | Inr other \<Rightarrow> Inl TypeError)
             else Inr [])
      else if CHR ''_'' \<in> set feature_name then
        Inr [\<lparr>variable = feature_name, condition = ''present'', threshold = None,
              adjustment = adj,
              description = ''If '' @ var_base_of feature_name @ '' is '' @
                            category_of feature_name\<rparr>]
      else
        Inr [\<lparr>variable = feature_name, condition = ''present'', threshold = None,
              adjustment = adj,
              description = ''If '' @ feature_name @ '' is present''\<rparr>])"

definition feature_rules ::
  "dataframe \<Rightarrow> config \<Rightarrow> int \<Rightarrow> string \<Rightarrow> real \<Rightarrow> error + rule list" where
  "feature_rules df cfg scale_factor feature_name coefficient =
     (if \<bar>coefficient\<bar> < 1/100 then Inr []
      else adjusted_rules df cfg feature_name (py_int (coefficient * of_int scale_factor)))"

text \<open>
  The loop reads \<open>model_coefficients[feature_idx]\<close> for each feature in turn
  (\<open>IndexError\<close> past the end).
\<close>

fun generate_loop ::
  "dataframe \<Rightarrow> config \<Rightarrow> int \<Rightarrow> real list \<Rightarrow> nat \<Rightarrow> string list \<Rightarrow> error + rule list" where
  "generate_loop df cfg scale_factor coefs idx [] = Inr []"
| "generate_loop df cfg scale_factor coefs idx (feature_name # rest) =
     (if length coefs \<le> idx then Inl IndexError
      else case feature_rules df cfg scale_factor feature_name (coefs ! idx) of
             Inl e \<Rightarrow> Inl e
           | Inr rs \<Rightarrow>
               (case generate_loop df cfg scale_factor coefs (Suc idx) rest of
                  Inl e \<Rightarrow> Inl e
                | Inr later \<Rightarrow> Inr (rs @ later)))"

definition base_rule :: "int \<Rightarrow> rule" where
  "base_rule base_score =
     \<lparr>variable = ''BASE'', condition = ''always'', threshold = None, adjustment = base_score,
      description = ''Start with base score''\<rparr>"

definition generate_scoring_rules ::
  "dataframe \<Rightarrow> real list \<Rightarrow> string list \<Rightarrow> config \<Rightarrow> int \<Rightarrow> int \<Rightarrow> error + rule list" where
  "generate_scoring_rules df model_coefficients feature_names cfg base_score scale_factor =
     (case generate_loop df cfg scale_factor model_coefficients 0 feature_names of
        Inl e \<Rightarrow> Inl e
      | Inr rs \<Rightarrow> Inr (base_rule base_score # rs))"


text \<open>Inputs for the generator: a prepared frame and two configurations.\<close>

definition prepared_frame :: dataframe where
  "prepared_frame =
     \<lparr>nrows = 3,
      cols = [(''responded'', NumCol [Some 1, Some 0, Some 1]),
              (''income'', NumCol [Some 0, Some (1/2), Some 1]),
              (''segment_gold'', NumCol [Some 1, Some 0, Some 0])]\<rparr>"

definition income_details :: "range_cfg option \<Rightarrow> var_config" where
  "income_details r =
     \<lparr>vtype = Some ''numerical'', has_order = False, value_order = None,
      direction = Some ''Higher values are better'', vrange = r\<rparr>"

definition segment_details :: var_config where
  "segment_details =
     \<lparr>vtype = Some ''categorical'', has_order = False, value_order = None,
      direction = None, vrange = None\<rparr>"

definition sample_config :: "range_cfg option \<Rightarrow> config" where
  "sample_config r =
     \<lparr>target_variable = ''responded'',
      categorical_variables = [''segment''],
      numerical_variables = [''income''],
      variable_details = [(''income'', income_details r), (''segment'', segment_details)],
      source_table = Some ''RAW_DATA.UPLOAD_1''\<rparr>"

text \<open>
  A frame and a configuration with a numerical variable whose name holds an underscore.
\<close>

definition underscore_frame :: dataframe where
  "underscore_frame =
     \<lparr>nrows = 3,
      cols = [(''responded'', NumCol [Some 1, Some 0, Some 1]),
              (''annual_income'', NumCol [Some 0, Some (1/2), Some 1])]\<rparr>"

definition underscore_config :: config where
  "underscore_config =
     \<lparr>target_variable = ''responded'',
      categorical_variables = [],
      numerical_variables = [''annual_income''],
      variable_details = [(''annual_income'', income_details None)],
      source_table = Some ''RAW_DATA.UPLOAD_1''\<rparr>"


section \<open>Feature Transformer: \<open>prepare_analysis_data\<close> (data_preparation.py)\<close>

text \<open>
  Two library functions are parameters of the model: Python's \<open>str\<close> of a number and
  the parser behind \<open>pd.to_numeric\<close> (\<open>None\<close> where it finds no number). Log output has
  no effect on the result and is left out. Error messages are kept up to their fixed
  text.
\<close>

record pylib =
  float_repr :: "real \<Rightarrow> string"
  to_numeric :: "string \<Rightarrow> real option"

fun py_str :: "pylib \<Rightarrow> cell \<Rightarrow> string" where
  "py_str lib (Str s) = s"
| "py_str lib (Num v) = float_repr lib v"
| "py_str lib Null = ''nan''"

text \<open>
  \<open>df[name]\<close> as a series: the column of that name. An absent name raises \<open>KeyError\<close>;
  a name that occurs twice yields a frame, on which the series operations used below
  fail.
\<close>

definition series :: "dataframe \<Rightarrow> string \<Rightarrow> error + column" where
  "series df name =
     (case filter (\<lambda>nc. fst nc = name) (cols df) of
        [] \<Rightarrow> Inl (KeyError name)
      | [nc] \<Rightarrow> Inr (snd nc)
      | _ \<Rightarrow> Inl AttributeError)"

definition set_col :: "dataframe \<Rightarrow> string \<Rightarrow> column \<Rightarrow> dataframe" where
  \<comment> \<open>\<open>df[name] = values\<close> for an existing column\<close>
  "set_col df name c =
     df\<lparr>cols := map (\<lambda>nc. if fst nc = name then (name, c) else nc) (cols df)\<rparr>"

subsection \<open>Categorical variables\<close>

definition fillna_missing :: "column \<Rightarrow> column" where
  \<comment> \<open>\<open>fillna('MISSING')\<close>\<close>
  "fillna_missing c =
     (case c of
        NumCol xs \<Rightarrow>
          if list_all (\<lambda>x. x \<noteq> None) xs then NumCol xs
          else ObjCol (map (\<lambda>x. case x of None \<Rightarrow> Str ''MISSING'' | Some v \<Rightarrow> Num v) xs)
      | ObjCol cs \<Rightarrow> ObjCol (map (\<lambda>x. if x = Null then Str ''MISSING'' else x) cs))"

text \<open>
  \<open>value_map = {val: idx for idx, val in enumerate(value_order)}\<close> and
  \<open>value_map.get(str(x), -1)\<close>: the last position of the text in \<open>value_order\<close>, or \<open>-1\<close>.
\<close>

definition rank_of :: "string list \<Rightarrow> string \<Rightarrow> int" where
  "rank_of order s =
     (case map_of (rev (zip order [0..<length order])) s of
        None \<Rightarrow> -1
      | Some i \<Rightarrow> int i)"

definition map_ordered :: "pylib \<Rightarrow> string list \<Rightarrow> column \<Rightarrow> column" where
  "map_ordered lib order c =
     NumCol (map (\<lambda>x. Some (of_int (rank_of order (py_str lib x)))) (col_cells c))"

text \<open>
  \<open>pd.get_dummies(series, prefix=col).astype(float)\<close>: one 0/1 column per distinct
  non-missing value, named \<open>col_value\<close>. The values are sorted when they are all texts
  or all numbers, and kept in order of first appearance otherwise.
\<close>

definition categories :: "cell list \<Rightarrow> cell list" where
  "categories cs =
     (let present = filter (\<lambda>x. x \<noteq> Null) cs
      in if list_all is_Str present then map Str (sort (remdups (map str_of present)))
         else if list_all is_Num present then map Num (sort (remdups (map num_of present)))
         else unique present)"

definition get_dummies :: "pylib \<Rightarrow> string \<Rightarrow> column \<Rightarrow> (string \<times> column) list" where
  "get_dummies lib prefix c =
     map (\<lambda>v. (prefix @ ''_'' @ py_str lib v,
               NumCol (map (\<lambda>x. Some (if x = v then 1 else 0)) (col_cells c))))
         (categories (col_cells c))"

fun categorical_loop ::
  "pylib \<Rightarrow> config \<Rightarrow> string list \<Rightarrow> dataframe \<Rightarrow> (string \<times> column) list list \<Rightarrow>
   error + dataframe \<times> (string \<times> column) list list" where
  "categorical_loop lib cfg [] df dummies = Inr (df, dummies)"
| "categorical_loop lib cfg (col # rest) df dummies =
     (case series df col of
        Inl e \<Rightarrow> Inl e
      | Inr c \<Rightarrow>
          (let filled = fillna_missing c; details = details_of cfg col
           in if has_order details then
                (case value_order details of
                   None \<Rightarrow> Inl (KeyError ''value_order'')
                 | Some order \<Rightarrow>
                     categorical_loop lib cfg rest
                       (set_col df col (map_ordered lib order filled)) dummies)
              else
                categorical_loop lib cfg rest (set_col df col filled)
                  (dummies @ [get_dummies lib col filled])))"

definition concat_dummies :: "dataframe \<Rightarrow> (string \<times> column) list list \<Rightarrow> dataframe" where
  \<comment> \<open>\<open>pd.concat([df_prep] + categorical_dummies, axis=1)\<close>\<close>
  "concat_dummies df dummies = df\<lparr>cols := cols df @ concat dummies\<rparr>"

subsection \<open>Numerical variables\<close>

definition strip_non_numeric :: "string \<Rightarrow> string" where
  \<comment> \<open>\<open>replace('[^0-9.-]', '', regex=True)\<close>\<close>
  "strip_non_numeric s = filter (\<lambda>ch. ch \<in> set ''0123456789.-'') s"

definition parse_numeric :: "pylib \<Rightarrow> column \<Rightarrow> real option list" where
  \<comment> \<open>\<open>pd.to_numeric(series.astype(str).replace(...), errors='coerce')\<close>\<close>
  "parse_numeric lib c = map (\<lambda>x. to_numeric lib (strip_non_numeric (py_str lib x))) (col_cells c)"

text \<open>
  \<open>max()\<close>, \<open>min()\<close> and \<open>median()\<close> skip missing values and are \<open>NaN\<close> when nothing
  is left; arithmetic with \<open>NaN\<close> gives \<open>NaN\<close>, and \<open>NaN != NaN\<close> holds.
\<close>

definition invert_values :: "real option list \<Rightarrow> real option list" where
  \<comment> \<open>\<open>max_val = col.max(); col = max_val - col\<close>\<close>
  "invert_values xs =
     (if present_values xs = [] then map (\<lambda>x. None) xs
      else map (map_option (\<lambda>v. reduce max (present_values xs) - v)) xs)"

definition median :: "real list \<Rightarrow> real option" where
  "median vs =
     (let s = sort vs; n = length s
      in if n = 0 then None
         else if odd n then Some (s ! (n div 2))
         else Some ((s ! (n div 2 - 1) + s ! (n div 2)) / 2))"

definition fillna :: "real option \<Rightarrow> real option list \<Rightarrow> real option list" where
  "fillna m xs = map (\<lambda>x. case x of None \<Rightarrow> m | Some v \<Rightarrow> Some v) xs"

definition min_max_scale :: "real option list \<Rightarrow> real option list" where
  "min_max_scale xs =
     (if present_values xs = [] then map (\<lambda>x. None) xs
      else let min_val = reduce min (present_values xs);
               max_val = reduce max (present_values xs)
           in if min_val \<noteq> max_val
              then map (map_option (\<lambda>v. (v - min_val) / (max_val - min_val))) xs
              else xs)"

definition transform_numeric :: "string option \<Rightarrow> real option list \<Rightarrow> real option list" where
  "transform_numeric dir parsed =
     (let inverted = (if dir = Some ''Lower values are better'' then invert_values parsed
                      else parsed);
          filled = fillna (median (present_values inverted)) inverted
      in min_max_scale filled)"

text \<open>
  Any exception inside the loop body is re-raised as
  \<open>ValueError('Failed to process column ...')\<close>.
\<close>

fun numerical_loop :: "pylib \<Rightarrow> config \<Rightarrow> string list \<Rightarrow> dataframe \<Rightarrow> error + dataframe" where
  "numerical_loop lib cfg [] df = Inr df"
| "numerical_loop lib cfg (col # rest) df =
     (case series df col of
        Inl e \<Rightarrow> Inl (ValueError ''Failed to process column'')
      | Inr c \<Rightarrow>
          numerical_loop lib cfg rest
            (set_col df col
               (NumCol (transform_numeric (direction (details_of cfg col))
                          (parse_numeric lib c)))))"

subsection \<open>Target variable\<close>

definition to_lower :: "string \<Rightarrow> string" where
  "to_lower s =
     map (\<lambda>ch. if CHR ''A'' \<le> ch \<and> ch \<le> CHR ''Z'' then char_of (of_char ch + (32::nat)) else ch) s"

definition truthy :: "string list" where
  "truthy = [''1'', ''true'', ''yes'', ''y'', ''t'']"

text \<open>
  The target may have at most two distinct values, where \<open>unique()\<close> counts a missing
  value as a value. An object column is mapped to 1 and 0 by text. A numeric column must
  pass \<open>set(values).issubset({0, 1, np.nan})\<close>; a \<open>NaN\<close> taken out of the array is a fresh
  float, neither identical nor equal to \<open>np.nan\<close>, so only 0 and 1 pass.
\<close>

definition prepare_target :: "pylib \<Rightarrow> column \<Rightarrow> error + column" where
  "prepare_target lib c =
     (if 2 < length (remdups (col_cells c)) then Inl (ValueError ''Target variable must be binary'')
      else case c of
        ObjCol cs \<Rightarrow>
          Inr (NumCol (map (\<lambda>x. Some (if to_lower (py_str lib x) \<in> set truthy then 1 else 0)) cs))
      | NumCol xs \<Rightarrow>
          if list_all (\<lambda>x. x = Some 0 \<or> x = Some 1) xs then Inr (NumCol xs)
          else Inl (ValueError ''Target values must be binary (0/1)''))"

subsection \<open>Final columns\<close>

definition drop_columns :: "dataframe \<Rightarrow> string list \<Rightarrow> error + dataframe" where
  \<comment> \<open>\<open>df.drop(columns=names)\<close>\<close>
  "drop_columns df names =
     (case filter (\<lambda>n. n \<notin> set (columns df)) names of
        [] \<Rightarrow> Inr (df\<lparr>cols := filter (\<lambda>nc. fst nc \<notin> set names) (cols df)\<rparr>)
      | n # ns \<Rightarrow> Inl (KeyError n))"

definition select_columns :: "dataframe \<Rightarrow> string list \<Rightarrow> error + dataframe" where
  \<comment> \<open>\<open>df[names]\<close>: for each name in turn, the columns of that name\<close>
  "select_columns df names =
     (case filter (\<lambda>n. n \<notin> set (columns df)) names of
        [] \<Rightarrow> Inr (df\<lparr>cols := concat (map (\<lambda>n. filter (\<lambda>nc. fst nc = n) (cols df)) names)\<rparr>)
      | n # ns \<Rightarrow> Inl (KeyError n))"

definition starts_with :: "string \<Rightarrow> string \<Rightarrow> bool" where
  "starts_with s p = (take (length p) s = p)"

definition keep_cols :: "config \<Rightarrow> dataframe \<Rightarrow> string list" where
  "keep_cols cfg df =
     [target_variable cfg] @ numerical_variables cfg @
     filter (\<lambda>col. list_ex (\<lambda>cat. starts_with col (cat @ ''_'')) (categorical_variables cfg))
       (columns df)"


section \<open>Dataset Validator: \<open>validate_prepared_data\<close> (data_preparation.py)\<close>

definition has_missing :: "dataframe \<Rightarrow> bool" where
  \<comment> \<open>\<open>df.isnull().sum().any()\<close>\<close>
  "has_missing df = list_ex (\<lambda>nc. Null \<in> set (col_cells (snd nc))) (cols df)"

text \<open>
  \<open>pd.to_numeric(df[col])\<close> raises on a text that is no number, and on the frame that a
  doubled name yields; the bare \<open>except\<close> records the column as non-numeric.
\<close>

definition cell_numeric :: "pylib \<Rightarrow> cell \<Rightarrow> bool" where
  "cell_numeric lib x = (case x of Str s \<Rightarrow> to_numeric lib s \<noteq> None | _ \<Rightarrow> True)"

definition non_numeric :: "pylib \<Rightarrow> dataframe \<Rightarrow> string list" where
  "non_numeric lib df =
     filter (\<lambda>col. case series df col of
                     Inl e \<Rightarrow> True
                   | Inr c \<Rightarrow> \<not> list_all (cell_numeric lib) (col_cells c))
       (columns df)"

definition constant_cols :: "dataframe \<Rightarrow> string list" where
  \<comment> \<open>\<open>[col for col in df.columns if df[col].nunique() == 1]\<close>\<close>
  "constant_cols df =
     map fst (filter (\<lambda>nc. length (remdups (filter (\<lambda>x. x \<noteq> Null) (col_cells (snd nc)))) = 1)
                (cols df))"

text \<open>
  The target check sorts the distinct target values, which raises \<open>TypeError\<close> when
  texts and numbers are mixed, and then requires them to lie in \<open>{0, 1}\<close>. The last
  check, on correlated features, only logs a warning and is left out. The checks run in
  order, and each one raises as soon as it fails.
\<close>

definition validate_prepared_data :: "pylib \<Rightarrow> dataframe \<Rightarrow> config \<Rightarrow> error + unit" where
  "validate_prepared_data lib df cfg =
     (if has_missing df then Inl (ValueError ''Dataset contains missing values'')
      else if non_numeric lib df \<noteq> [] then Inl (ValueError ''Non-numeric values found'')
      else case series df (target_variable cfg) of
        Inl e \<Rightarrow> Inl e
      | Inr t \<Rightarrow>
          if list_ex is_Str (col_cells t) \<and> list_ex is_Num (col_cells t) then Inl TypeError
          else if \<not> list_all (\<lambda>x. x = Num 0 \<or> x = Num 1) (col_cells t)
            then Inl (ValueError ''Target must be binary (0/1)'')
          else if constant_cols df \<noteq> [] then Inl (ValueError ''Constant columns found'')
          else Inr ())"

text \<open>The whole preparation.\<close>

definition prepare_analysis_data :: "pylib \<Rightarrow> dataframe \<Rightarrow> config \<Rightarrow> error + dataframe" where
  "prepare_analysis_data lib df cfg =
     (case categorical_loop lib cfg (categorical_variables cfg) df [] of
        Inl e \<Rightarrow> Inl e
      | Inr (df1, dummies) \<Rightarrow>
          (case numerical_loop lib cfg (numerical_variables cfg) (concat_dummies df1 dummies) of
             Inl e \<Rightarrow> Inl e
           | Inr df2 \<Rightarrow>
               (case series df2 (target_variable cfg) of
                  Inl e \<Rightarrow> Inl e
                | Inr t \<Rightarrow>
                    (case prepare_target lib t of
                       Inl e \<Rightarrow> Inl e
                     | Inr t' \<Rightarrow>
                         (case drop_columns (set_col df2 (target_variable cfg) t')
                                 (categorical_variables cfg) of
                            Inl e \<Rightarrow> Inl e
                          | Inr df3 \<Rightarrow>
                              (case select_columns df3 (keep_cols cfg df3) of
                                 Inl e \<Rightarrow> Inl e
                               | Inr df4 \<Rightarrow>
                                   (case validate_prepared_data lib df4 cfg of
                                      Inl e \<Rightarrow> Inl e
                                    | Inr u \<Rightarrow> Inr df4)))))))"


section \<open>A concrete library and a small dataset\<close>

text \<open>
  For running the model: a parser of plain decimals (optional minus sign, digits, an
  optional decimal point), which is how \<open>pd.to_numeric\<close> reads a text made of digits,
  point and minus, and the text of a float of integral value (\<open>'3.0'\<close>).
\<close>

definition is_digit :: "char \<Rightarrow> bool" where
  "is_digit ch = (ch \<in> set ''0123456789'')"

definition nat_of_digits :: "string \<Rightarrow> nat" where
  "nat_of_digits s = foldl (\<lambda>n ch. 10 * n + (of_char ch - 48)) 0 s"

definition parse_unsigned :: "string \<Rightarrow> real option" where
  "parse_unsigned s =
     (let ip = takeWhile is_digit s
      in case dropWhile is_digit s of
           [] \<Rightarrow> if ip = [] then None else Some (real (nat_of_digits ip))
         | ch # fp \<Rightarrow>
             if ch = CHR ''.'' \<and> list_all is_digit fp \<and> (ip \<noteq> [] \<or> fp \<noteq> [])
             then Some (real (nat_of_digits ip) + real (nat_of_digits fp) / 10 ^ length fp)
             else None)"

definition parse_decimal :: "string \<Rightarrow> real option" where
  "parse_decimal s =
     (case s of
        [] \<Rightarrow> None
      | ch # r \<Rightarrow> if ch = CHR ''-'' then map_option uminus (parse_unsigned r)
                 else parse_unsigned s)"

definition integral_repr :: "real \<Rightarrow> string" where
  "integral_repr v = (if v < 0 then ''-'' else []) @ digits (nat \<lfloor>\<bar>v\<bar>\<rfloor>) @ ''.0''"

definition plain_lib :: pylib where
  "plain_lib = \<lparr>float_repr = integral_repr, to_numeric = parse_decimal\<rparr>"

definition raw_frame :: dataframe where
  "raw_frame =
     \<lparr>nrows = 4,
      cols = [(''responded'', ObjCol [Str ''Yes'', Str ''no'', Str ''Yes'', Str ''no'']),
              (''income'', ObjCol [Str ''$1,200'', Str ''800'', Null, Str ''2000'']),
              (''region'', ObjCol [Str ''east'', Str ''west'', Null, Str ''east'']),
              (''grade'', ObjCol [Str ''low'', Str ''high'', Str ''mid'', Str ''low''])]\<rparr>"

definition raw_config :: config where
  "raw_config =
     \<lparr>target_variable = ''responded'',
      categorical_variables = [''region'', ''grade''],
      numerical_variables = [''income''],
      variable_details =
        [(''region'', \<lparr>vtype = Some ''categorical'', has_order = False, value_order = None,
                       direction = None, vrange = None\<rparr>),
         (''grade'', \<lparr>vtype = Some ''categorical'', has_order = True,
                      value_order = Some [''high'', ''mid'', ''low''],
                      direction = None, vrange = None\<rparr>),
         (''income'', \<lparr>vtype = Some ''numerical'', has_order = False, value_order = None,
                       direction = Some ''Higher values are better'',
                       vrange = Some (RangeList [800, 2000])\<rparr>)],
      source_table = Some ''RAW_DATA.UPLOAD_1''\<rparr>"

definition prepared_raw_frame :: dataframe where
  "prepared_raw_frame =
     \<lparr>nrows = 4,
      cols = [(''responded'', NumCol [Some 1, Some 0, Some 1, Some 0]),
              (''income'', NumCol [Some (1/3), Some 0, Some (1/3), Some 1]),
              (''region_MISSING'', NumCol [Some 0, Some 0, Some 1, Some 0]),
              (''region_east'', NumCol [Some 1, Some 0, Some 0, Some 1]),
              (''region_west'', NumCol [Some 0, Some 1, Some 0, Some 0])]\<rparr>"


text \<open>A prepared frame with two defects: a missing cell and a constant column.\<close>

definition flawed_frame :: dataframe where
  "flawed_frame =
     \<lparr>nrows = 3,
      cols = [(''responded'', NumCol [Some 1, Some 0, Some 1]),
              (''income'', NumCol [Some 0, None, Some 1]),
              (''flag'', NumCol [Some 1, Some 1, Some 1])]\<rparr>"


section \<open>Orchestrator: \<open>run_analysis\<close> (analysis.py)\<close>

text \<open>
  The classifier (stratified split, standard scaler, L1 logistic regression) is a
  parameter \<open>fit\<close>: from the feature frame and the targets it yields the coefficients
  \<open>model.coef_[0]\<close> and the predicted probabilities of all rows, or raises. The table is
  the frame loaded from the source table. The writes to the store do not enter the
  result and are taken to succeed; the feature-importance table, which depends on the
  classifier only, is left out of the result. Every exception ends in the failure result.
\<close>

datatype analysis_result =
    Success (metrics: "(string \<times> real option) list") (scoring_rules: "string list")
      (response_rate_records: "decile_record list")
  | Failure error

definition int_text :: "int \<Rightarrow> string" where
  "int_text i = (if i < 0 then ''-'' else []) @ digits (nat \<bar>i\<bar>)"

definition format_rule_description :: "rule \<Rightarrow> string" where
  "format_rule_description r =
     (if variable r = ''BASE'' then ''Start with '' @ int_text (adjustment r) @ '' points''
      else description r @ '', '' @ (if 0 < adjustment r then ''Add'' else ''Subtract'') @
           '' '' @ int_text \<bar>adjustment r\<bar> @ '' points'')"

definition target_values :: "dataframe \<Rightarrow> config \<Rightarrow> error + real list" where
  \<comment> \<open>\<open>y = df_prep[target_var]\<close>; the prepared target is numeric and has no missing value\<close>
  "target_values df cfg =
     (case series df (target_variable cfg) of
        Inl e \<Rightarrow> Inl e
      | Inr (NumCol ys) \<Rightarrow> Inr (present_values ys)
      | Inr (ObjCol cs) \<Rightarrow> Inl TypeError)"

definition run_analysis ::
  "pylib \<Rightarrow> (dataframe \<Rightarrow> real list \<Rightarrow> error + real list \<times> real list) \<Rightarrow> config \<Rightarrow> dataframe \<Rightarrow>
   analysis_result" where
  "run_analysis lib fit cfg table =
     (if source_table cfg = None \<or> source_table cfg = Some []
      then Failure (ValueError ''Source table not specified in configuration'')
      else if nrows table = 0 then Failure (ValueError ''Table is empty'')
      else case prepare_analysis_data lib table cfg of
        Inl e \<Rightarrow> Failure (ValueError ''Data preparation failed'')
      | Inr df_prep \<Rightarrow>
          (case target_values df_prep cfg of
             Inl e \<Rightarrow> Failure e
           | Inr y \<Rightarrow>
               (case drop_columns df_prep [target_variable cfg] of
                  Inl e \<Rightarrow> Failure e
                | Inr X \<Rightarrow>
                    if nrows X < 100 then Failure (ValueError ''Insufficient data for analysis'')
                    else case fit X y of
                      Inl e \<Rightarrow> Failure e
                    | Inr (coefs, regression_scores) \<Rightarrow>
                        (case generate_scoring_rules df_prep coefs (columns X) cfg 1000 1000 of
                           Inl e \<Rightarrow> Failure e
                         | Inr rules \<Rightarrow>
                             (case apply_scoring_rules df_prep rules of
                                Inl e \<Rightarrow> Failure e
                              | Inr simple_scores \<Rightarrow>
                                  (case decile_table y regression_scores of
                                     Inl e \<Rightarrow> Failure e
                                   | Inr rates \<Rightarrow>
                                       Success
                                         [(''baseline_rate'', mean y),
                                          (''top_decile_rate'', response_rate (last rates))]
                                         (map format_rule_description rules)
                                         rates))))))"

text \<open>
  A run of one hundred rows: the ten responders come first, one numerical variable, and
  a classifier that returns the coefficient 0.5 and the descending scores used above.
\<close>

definition hundred_table :: dataframe where
  "hundred_table =
     \<lparr>nrows = 100,
      cols = [(''responded'', ObjCol (replicate 10 (Str ''1'') @ replicate 90 (Str ''0''))),
              (''visits'', ObjCol (replicate 10 (Str ''3'') @ replicate 40 (Str ''2'') @
                                 replicate 50 (Str ''1'')))]\<rparr>"

definition hundred_config :: config where
  "hundred_config =
     \<lparr>target_variable = ''responded'',
      categorical_variables = [],
      numerical_variables = [''visits''],
      variable_details =
        [(''visits'', \<lparr>vtype = Some ''numerical'', has_order = False, value_order = None,
                       direction = Some ''Higher values are better'', vrange = None\<rparr>)],
      source_table = Some ''RAW_DATA.UPLOAD_20240101''\<rparr>"

definition hundred_prepared :: dataframe where
  "hundred_prepared =
     \<lparr>nrows = 100,
      cols = [(''responded'', NumCol (replicate 10 (Some 1) @ replicate 90 (Some 0))),
              (''visits'', NumCol (replicate 10 (Some 1) @ replicate 40 (Some (1/2)) @
                                 replicate 50 (Some 0)))]\<rparr>"

definition fixed_fit :: "dataframe \<Rightarrow> real list \<Rightarrow> error + real list \<times> real list" where
  "fixed_fit X y = Inr ([1/2], scores_descending)"


definition hundred_rules :: "rule list" where
  "hundred_rules =
     [base_rule 1000, threshold_rule ''visits'' (7/10) 350, threshold_rule ''visits'' (3/10) 150]"


section \<open>Properties of the Rule Evaluator\<close>

lemma map_nth_len: "length xs = n \<Longrightarrow> map ((!) xs) [0..<n] = xs"
  using map_nth[of xs] by simp

lemma collect_gt_cell:
  "list_all (\<lambda>x. \<not> is_Str x) cs \<Longrightarrow>
   collect (map (gt_cell t) cs) = Inr (map (\<lambda>c. case c of Num v \<Rightarrow> t < v | _ \<Rightarrow> False) cs)"
proof (induction cs)
  case Nil
  then show ?case by simp
next
  case (Cons c cs)
  then show ?case by (cases c) simp_all
qed

lemma threshold_mask_cells:
  "list_all (\<lambda>x. \<not> is_Str x) (col_cells c) \<Longrightarrow>
   threshold_mask c t = Inr (map (\<lambda>c. case c of Num v \<Rightarrow> t < v | _ \<Rightarrow> False) (col_cells c))"
proof (cases c)
  case (NumCol xs)
  have "(\<lambda>x. case x of None \<Rightarrow> False | Some v \<Rightarrow> t < v) = (\<lambda>x. case cell_of x of Num v \<Rightarrow> t < v | _ \<Rightarrow> False)"
    by (rule ext) (simp split: option.splits)
  then show ?thesis using NumCol by (simp add: comp_def)
next
  case (ObjCol cs)
  assume "list_all (\<lambda>x. \<not> is_Str x) (col_cells c)"
  then show ?thesis using ObjCol by (simp add: collect_gt_cell)
qed

lemma present_mask_cells:
  "present_mask c = map (\<lambda>x. if is_numeric c then x = Num 1 else x \<noteq> Null) (col_cells c)"
proof (cases c)
  case (NumCol xs)
  have "\<And>x. (x = Some 1) = (cell_of x = Num 1)"
    by (case_tac x) simp_all
  then show ?thesis using NumCol by (simp add: comp_def)
next
  case (ObjCol cs)
  then show ?thesis by simp
qed

lemma add_where_nth:
  "length msk = length scores \<Longrightarrow>
   add_where msk adj scores = map (\<lambda>i. scores ! i + (if msk ! i then adj else 0)) [0..<length scores]"
  by (rule nth_equalityI) (simp_all add: add_where_def)

lemma wf_frame_lookup:
  "wf_frame df \<Longrightarrow> map_of (cols df) v = Some c \<Longrightarrow> length (col_cells c) = nrows df"
  by (auto simp: wf_frame_def list_all_iff col_len_def dest!: map_of_SomeD)

lemma apply_rule_additive:
  assumes "wf_frame df" and "comparable df r" and "length scores = nrows df"
  shows "apply_rule df r scores =
    Inr (map (\<lambda>i. scores ! i + (if predicate_holds df r i then adjustment r else 0)) [0..<nrows df])"
proof (cases "variable r = ''BASE''")
  case True
  then show ?thesis using assms(3)
    by (simp add: apply_rule_def predicate_holds_def is_base_def map_nth_len)
next
  case nb: False
  show ?thesis
  proof (cases "map_of (cols df) (variable r)")
    case None
    then show ?thesis using nb assms(3)
      by (simp add: apply_rule_def predicate_holds_def map_nth_len)
  next
    case (Some c)
    have len: "length (col_cells c) = length scores"
      using wf_frame_lookup[OF assms(1) Some] assms(3) by simp
    show ?thesis
    proof (cases "is_threshold r")
      case True
      with assms(2) nb Some obtain t where t: "threshold r = Some t"
        and ns: "list_all (\<lambda>x. \<not> is_Str x) (col_cells c)"
        by (auto simp: comparable_def is_base_def)
      have "apply_rule df r scores =
        Inr (add_where (map (\<lambda>c. case c of Num v \<Rightarrow> t < v | _ \<Rightarrow> False) (col_cells c)) (adjustment r) scores)"
        using nb Some True t by (simp add: apply_rule_def threshold_mask_cells[OF ns])
      also have "\<dots> = Inr (map (\<lambda>i. scores ! i + (if predicate_holds df r i then adjustment r else 0)) [0..<nrows df])"
        using len assms(3) nb Some True t
        by (simp add: add_where_nth predicate_holds_def is_base_def cell_at_def split: cell.splits)
      finally show ?thesis .
    next
      case nt: False
      show ?thesis
      proof (cases "condition r = ''present''")
        case True
        then show ?thesis using nb Some nt len assms(3)
          by (simp add: apply_rule_def add_where_nth present_mask_cells predicate_holds_def
              is_base_def cell_at_def)
      next
        case False
        then show ?thesis using nb Some nt assms(3)
          by (simp add: apply_rule_def predicate_holds_def map_nth_len)
      qed
    qed
  qed
qed

lemma apply_rules_additive:
  assumes "wf_frame df"
  shows "list_all (comparable df) rs \<Longrightarrow> length scores = nrows df \<Longrightarrow>
    apply_rules df rs scores =
      Inr (map (\<lambda>i. scores ! i +
             sum_list (map (\<lambda>r. if predicate_holds df r i then adjustment r else 0) rs))
           [0..<nrows df])"
proof (induction rs arbitrary: scores)
  case Nil
  then show ?case by (simp add: map_nth_len)
next
  case (Cons r rs)
  let ?s = "map (\<lambda>i. scores ! i + (if predicate_holds df r i then adjustment r else 0)) [0..<nrows df]"
  have step: "apply_rule df r scores = Inr ?s"
    using apply_rule_additive[OF assms, of r scores] Cons.prems by simp
  have "apply_rules df rs ?s = Inr (map (\<lambda>i. ?s ! i +
             sum_list (map (\<lambda>r. if predicate_holds df r i then adjustment r else 0) rs))
           [0..<nrows df])"
    using Cons.IH[of ?s] Cons.prems by simp
  then show ?case using step by (simp add: add.assoc)
qed

text \<open>
  Claim C1 (as amended). Let the frame be well formed, let the first \<open>BASE\<close> rule have
  adjustment \<open>b\<close>, and let every threshold rule whose column exists carry its threshold
  and reference a column without text cells. Then the evaluator returns one integer per
  row: \<open>b\<close> plus the adjustments of all non-base rules whose column exists and whose
  predicate holds on the row (value above the threshold; value equal to 1 on a numeric
  column, non-missing otherwise, for \<open>present\<close>). Rules on absent columns add nothing.
  The result is a function of the frame and the rule set only, so evaluating twice gives
  the same scores.
\<close>

theorem rule_evaluator_additive:
  assumes "wf_frame df"
    and "find is_base rules = Some b"
    and "list_all (comparable df) rules"
  shows "apply_scoring_rules df rules =
    Inr (map (additive_score df rules (adjustment b)) [0..<nrows df])"
  using apply_rules_additive[OF assms(1) assms(3), of "replicate (nrows df) (adjustment b)"]
    assms(2)
  by (simp add: apply_scoring_rules_def additive_score_def)

theorem rule_evaluator_additive_witness:
  "wf_frame sample_frame \<and> find is_base sample_rules = Some base_rule_1000 \<and>
   list_all (comparable sample_frame) sample_rules \<and>
   apply_scoring_rules sample_frame sample_rules = Inr [1037, 1000, 987]"
proof -
  have wf: "wf_frame sample_frame"
    by (simp add: wf_frame_def sample_frame_def col_len_def columns_def)
  have base: "find is_base sample_rules = Some base_rule_1000"
    by (simp add: sample_rules_def is_base_def base_rule_1000_def)
  have cmp: "list_all (comparable sample_frame) sample_rules"
    by (simp add: sample_rules_def sample_frame_def comparable_def is_base_def
        is_threshold_def base_rule_1000_def)
  have "map (additive_score sample_frame sample_rules (adjustment base_rule_1000))
          [0..<nrows sample_frame] = [1037, 1000, 987]"
    by (simp add: additive_score_def predicate_holds_def sample_rules_def sample_frame_def
        is_base_def is_threshold_def base_rule_1000_def cell_at_def upt_rec)
  with rule_evaluator_additive[OF wf base cmp] wf base cmp show ?thesis by simp
qed

text \<open>
  Claim C1 as stated, for every dataset: a threshold rule on a text column makes the
  evaluator raise \<open>TypeError\<close> instead of returning scores.
\<close>

theorem rule_evaluator_text_column_counterexample:
  "find is_base text_rules = Some base_rule_1000 \<and>
   apply_scoring_rules text_frame text_rules = Inl TypeError"
  by (simp add: apply_scoring_rules_def text_rules_def text_frame_def is_base_def
      base_rule_1000_def apply_rule_def is_threshold_def)

section \<open>Properties of the Decile/Lift Analyzer\<close>

lemma length_bin_edges: "length (bin_edges x) = 11"
  by (simp add: bin_edges_def)

lemma decile_edge_first: "decile_edge s 0 = s ! 0"
  by (simp add: decile_edge_def)

lemma decile_edge_last: "decile_edge s 10 = s ! (length s - 1)"
  by (simp add: decile_edge_def)

lemma hd_bin_edges: "hd (bin_edges x) = sort x ! 0"
proof -
  have "[0..<11] = 0 # [1..<11]" by (simp add: upt_rec)
  then show ?thesis by (simp add: bin_edges_def decile_edge_first)
qed

lemma last_bin_edges: "bin_edges x ! 10 = sort x ! (length x - 1)"
  by (simp add: bin_edges_def decile_edge_last)

lemma sort_bounds:
  assumes "v \<in> set x"
  shows "sort x ! 0 \<le> v" and "v \<le> sort x ! (length x - 1)"
proof -
  from assms have "v \<in> set (sort x)" by simp
  then obtain i where i: "i < length (sort x)" "sort x ! i = v"
    by (metis in_set_conv_nth)
  have s: "sorted (sort x)" by simp
  show "sort x ! 0 \<le> v"
    using sorted_nth_mono[OF s, of 0 i] i by simp
  show "v \<le> sort x ! (length x - 1)"
    using sorted_nth_mono[OF s, of i "length x - 1"] i by simp
qed

lemma bin_code_in_range:
  assumes "v \<in> set x"
  shows "\<exists>j<10. bin_code (bin_edges x) v = Some j"
proof (cases "v = hd (bin_edges x)")
  case True
  then show ?thesis by (simp add: bin_code_def bin_id_def length_bin_edges)
next
  case False
  let ?b = "bin_edges x"
  let ?n = "searchsorted_left ?b v"
  have lo: "hd ?b < v"
    using False sort_bounds(1)[OF assms] by (simp add: hd_bin_edges)
  have "?b \<noteq> []" using length_bin_edges[of x] by auto
  then have "hd ?b \<in> set (filter (\<lambda>e. e < v) ?b)" using lo by simp
  then have pos: "0 < ?n"
    unfolding searchsorted_left_def by (metis length_pos_if_in_set)
  have "\<not> ?b ! 10 < v"
    using sort_bounds(2)[OF assms] by (simp add: last_bin_edges)
  moreover have "?b ! 10 \<in> set ?b" by (simp add: length_bin_edges)
  ultimately have "filter (\<lambda>e. e < v) ?b \<noteq> ?b"
    by (metis filter_id_conv)
  then obtain e where "e \<in> set ?b" "\<not> e < v"
    by (auto simp: filter_id_conv)
  then have "?n < length ?b"
    unfolding searchsorted_left_def by (rule length_filter_less)
  then have "?n \<noteq> length ?b" by simp
  moreover have "?n \<le> length ?b" by (simp add: searchsorted_left_def)
  ultimately have "?n < 11" by (simp add: length_bin_edges)
  with pos False show ?thesis
    by (auto simp: bin_code_def bin_id_def length_bin_edges Let_def)
qed

lemma qcut_codes:
  assumes "qcut x = Inr codes"
  shows "length codes = length x" and "\<forall>c\<in>set codes. \<exists>j<10. c = Some j"
proof -
  from assms have c: "codes = map (bin_code (bin_edges x)) x"
    by (auto simp: qcut_def Let_def split: if_splits)
  show "length codes = length x" by (simp add: c)
  show "\<forall>c\<in>set codes. \<exists>j<10. c = Some j"
    using bin_code_in_range[of _ x] by (auto simp: c)
qed

lemma set_unique: "set (unique xs) = set xs"
  by (induction xs rule: unique.induct) auto

lemma distinct_unique: "distinct (unique xs)"
  by (induction xs rule: unique.induct) (auto simp: set_unique)

lemma length_unique: "length (unique xs) = card (set xs)"
  using distinct_card[OF distinct_unique, of xs] by (simp add: set_unique)

lemma all_codes_present:
  assumes "\<forall>c\<in>set codes. \<exists>j<10::nat. c = Some j" and "length (unique codes) = 10" and "j < 10"
  shows "Some j \<in> set codes"
proof -
  have sub: "set codes \<subseteq> Some ` {..<10::nat}" using assms(1) by auto
  have "card (Some ` {..<10::nat}) = 10" by (simp add: card_image)
  with assms(2) have "card (set codes) = card (Some ` {..<10::nat})"
    by (simp add: length_unique)
  with sub have "set codes = Some ` {..<10::nat}"
    by (simp add: card_subset_eq)
  with assms(3) show ?thesis by auto
qed

lemma group_counts_sum:
  "length y = length codes \<Longrightarrow> \<forall>c\<in>set codes. \<exists>j<m. c = Some j \<Longrightarrow>
   (\<Sum>j\<leftarrow>[0..<m]. length (group_values y codes j)) = length y"
proof (induction y codes rule: list_induct2)
  case Nil
  then show ?case by (simp add: group_values_def)
next
  case (Cons v y c codes)
  then obtain k where k: "k < m" "c = Some k" by auto
  have "(\<Sum>j\<leftarrow>[0..<m]. length (group_values (v # y) (c # codes) j)) =
        (\<Sum>j\<leftarrow>[0..<m]. (if j = k then 1 else 0) + length (group_values y codes j))"
    by (rule arg_cong[where f = sum_list]) (simp add: group_values_def k)
  also have "\<dots> = (\<Sum>j\<leftarrow>[0..<m]. if j = k then 1 else 0) + (\<Sum>j\<leftarrow>[0..<m]. length (group_values y codes j))"
    by (simp add: sum_list_addf)
  also have "(\<Sum>j\<leftarrow>[0..<m]. if j = k then 1 else 0) = (1::nat)"
    using k(1) by (simp add: interv_sum_list_conv_sum_set_nat)
  finally show ?case using Cons by simp
qed


lemma group_sums_sum:
  "length y = length codes \<Longrightarrow> \<forall>c\<in>set codes. \<exists>j<m. c = Some j \<Longrightarrow>
   (\<Sum>j\<leftarrow>[0..<m]. sum_list (group_values y codes j)) = sum_list y"
proof (induction y codes rule: list_induct2)
  case Nil
  then show ?case by (simp add: group_values_def)
next
  case (Cons v y c codes)
  then obtain k where k: "k < m" "c = Some k" by auto
  have "(\<Sum>j\<leftarrow>[0..<m]. sum_list (group_values (v # y) (c # codes) j)) =
        (\<Sum>j\<leftarrow>[0..<m]. (if j = k then v else 0) + sum_list (group_values y codes j))"
    by (rule arg_cong[where f = sum_list]) (simp add: group_values_def k)
  also have "\<dots> = (\<Sum>j\<leftarrow>[0..<m]. if j = k then v else 0) + (\<Sum>j\<leftarrow>[0..<m]. sum_list (group_values y codes j))"
    by (simp add: sum_list_addf)
  also have "(\<Sum>j\<leftarrow>[0..<m]. if j = k then v else 0) = v"
    using k(1) by (simp add: interv_sum_list_conv_sum_set_nat)
  finally show ?case using Cons by simp
qed

lemma group_nonempty:
  "length y = length codes \<Longrightarrow> Some j \<in> set codes \<Longrightarrow> group_values y codes j \<noteq> []"
proof (induction y codes rule: list_induct2)
  case Nil
  then show ?case by simp
next
  case (Cons v y c codes)
  then show ?case by (cases "c = Some j") (auto simp: group_values_def)
qed


lemma decile_table_unfold:
  assumes "decile_table y ps = Inr recs"
  obtains codes where "qcut ps = Inr codes" and "length (unique codes) = 10"
    and "length y = length codes"
    and "recs = map (\<lambda>j. \<lparr>decile = label_of (unique codes ! j),
                              count = length (group_values y codes j),
                              response_rate = mean (group_values y codes j),
                              lift = fdiv (mean (group_values y codes j)) (mean y)\<rparr>)
                    [0..<10]"
  using assms
  by (auto simp: decile_table_def response_rates_def Let_def split: sum.splits if_splits)

text \<open>The table of the hundred-row run, computed step by step.\<close>

lemma sort_scores_descending: "sort scores_descending = scores_ascending"
proof -
  have "sorted (map (\<lambda>j. real (Suc j) / 100) [0..<100])"
    by (rule sorted_map_mono) (auto simp: mono_on_def divide_right_mono)
  then have s: "sorted scores_ascending" by (simp add: scores_ascending_def)
  have "distinct (map (\<lambda>j. real (Suc j) / 100) [0..<100])"
    by (simp add: distinct_map inj_on_def)
  then have d: "distinct scores_ascending" by (simp add: scores_ascending_def)
  show ?thesis
    by (rule sorted_distinct_set_unique) (use s d in \<open>simp_all add: scores_descending_def\<close>)
qed

lemma bin_edges_descending: "bin_edges scores_descending = edges_descending"
  unfolding bin_edges_def sort_scores_descending
  by (simp add: decile_edge_def scores_ascending_def edges_descending_def upt_rec)

lemma bin_codes_descending: "map (bin_code edges_descending) scores_descending = codes_descending"
proof -
  have r: "replicate 10 x = [x, x, x, x, x, x, x, x, x, x]" for x :: "nat option"
    by (simp add: eval_nat_numeral)
  show ?thesis
    unfolding scores_descending_def scores_ascending_def codes_descending_def edges_descending_def
    by (simp add: bin_code_def bin_id_def searchsorted_left_def upt_rec r)
qed

lemma unique_codes_descending: "unique codes_descending = map Some [9, 8, 7, 6, 5, 4, 3, 2, 1, 0]"
  unfolding codes_descending_def by (simp add: eval_nat_numeral)

lemma distinct_edges_descending: "distinct edges_descending"
  unfolding edges_descending_def by simp

lemma qcut_scores_descending: "qcut scores_descending = Inr codes_descending"
proof -
  have "scores_descending \<noteq> []" by (simp add: scores_descending_def scores_ascending_def upt_rec)
  then show ?thesis
    by (simp add: qcut_def bin_edges_descending distinct_edges_descending bin_codes_descending)
qed

lemma groups_descending:
  "map (\<lambda>j. group_values targets_top_ten codes_descending j) [0..<10] =
     [replicate 10 0, replicate 10 0, replicate 10 0, replicate 10 0, replicate 10 0,
      replicate 10 0, replicate 10 0, replicate 10 0, replicate 10 0, replicate 10 1]"
proof -
  have r: "replicate 10 x = [x, x, x, x, x, x, x, x, x, x]" for x :: 'a
    by (simp add: eval_nat_numeral)
  have r90: "replicate 90 x = concat (replicate 9 (replicate 10 x))" for x :: real
    by (simp add: eval_nat_numeral)
  show ?thesis
    unfolding targets_top_ten_def codes_descending_def group_values_def r90
    by (simp add: upt_rec r eval_nat_numeral)
qed

lemma group_descending:
  assumes "j < 10"
  shows "group_values targets_top_ten codes_descending j = replicate 10 (if j = 9 then 1 else 0)"
proof -
  have "group_values targets_top_ten codes_descending j = map (\<lambda>j. group_values targets_top_ten codes_descending j) [0..<10] ! j"
    using assms by simp
  also have "\<dots> = replicate 10 (if j = 9 then 1 else 0)"
    unfolding groups_descending using assms
    by (auto simp: less_Suc_eq eval_nat_numeral)
  finally show ?thesis .
qed

lemma decile_table_hundred: "decile_table targets_top_ten scores_descending = Inr table_descending"
proof -
  have my: "mean targets_top_ten = Some (1/10)"
    by (simp add: mean_def targets_top_ten_def sum_list_replicate)
  have mr: "mean (replicate 10 c) = Some c" for c :: real
    by (simp add: mean_def sum_list_replicate)
  have len: "length targets_top_ten = length codes_descending"
    by (simp add: targets_top_ten_def codes_descending_def)
  show ?thesis
    unfolding decile_table_def qcut_scores_descending response_rates_def
    by (simp add: unique_codes_descending Let_def my mr upt_rec group_descending fdiv_def
        decile_labels_def table_descending_def len)
qed

text \<open>
  Claim C2. Whenever the decile analysis succeeds on targets and predicted
  probabilities, the table has exactly ten records, their counts add up to the
  number of rows, every response rate is a number, the count-weighted average of the
  response rates is the baseline rate (the mean of the targets; exactly, in real
  arithmetic), and each lift is the response rate divided by the baseline rate.
\<close>

theorem decile_table_totals:
  assumes "decile_table y regression_scores = Inr recs"
  shows "length recs = 10 \<and>
         sum_list (map count recs) = length y \<and>
         (\<exists>b. mean y = Some b \<and>
              (\<forall>r\<in>set recs. response_rate r \<noteq> None) \<and>
              (\<Sum>r\<leftarrow>recs. real (count r) * the (response_rate r)) /
                 real (\<Sum>r\<leftarrow>recs. count r) = b) \<and>
         (\<forall>r\<in>set recs. lift r = fdiv (response_rate r) (mean y))"
proof -
  from assms obtain codes where q: "qcut regression_scores = Inr codes"
    and u: "length (unique codes) = 10"
    and len: "length y = length codes"
    and recs: "recs = map (\<lambda>j. \<lparr>decile = label_of (unique codes ! j),
                              count = length (group_values y codes j),
                              response_rate = mean (group_values y codes j),
                              lift = fdiv (mean (group_values y codes j)) (mean y)\<rparr>)
                    [0..<10]"
    by (rule decile_table_unfold)
  have rng: "\<forall>c\<in>set codes. \<exists>j<10. c = Some j"
    by (rule qcut_codes(2)[OF q])
  have ne: "group_values y codes j \<noteq> []" if "j < 10" for j
    using group_nonempty[OF len all_codes_present[OF rng u that]] .
  have l10: "length recs = 10" by (simp add: recs)
  have cnt: "sum_list (map count recs) = length y"
    using group_counts_sum[OF len rng] by (simp add: recs comp_def)
  have "codes \<noteq> []" using u by auto
  then have yne: "y \<noteq> []" using len by auto
  then have my: "mean y = Some (sum_list y / real (length y))"
    by (simp add: mean_def)
  have rates: "\<forall>r\<in>set recs. response_rate r \<noteq> None"
    using ne by (auto simp: recs mean_def)
  have "(\<Sum>r\<leftarrow>recs. real (count r) * the (response_rate r)) =
        (\<Sum>j\<leftarrow>[0..<10]. sum_list (group_values y codes j))"
    unfolding recs map_map comp_def
    by (rule arg_cong[where f = sum_list], rule map_cong) (use ne in \<open>simp_all add: mean_def\<close>)
  also have "\<dots> = sum_list y" by (rule group_sums_sum[OF len rng])
  finally have ws: "(\<Sum>r\<leftarrow>recs. real (count r) * the (response_rate r)) = sum_list y" .
  have lf: "\<forall>r\<in>set recs. lift r = fdiv (response_rate r) (mean y)"
    by (auto simp: recs)
  from l10 cnt my rates ws lf show ?thesis by simp
qed

theorem decile_table_totals_witness:
  "length targets_top_ten = length scores_descending \<and>
   decile_table targets_top_ten scores_descending = Inr table_descending \<and>
   length table_descending = 10 \<and>
   sum_list (map count table_descending) = 100 \<and>
   mean targets_top_ten = Some (1/10) \<and>
   (\<Sum>r\<leftarrow>table_descending. real (count r) * the (response_rate r)) /
      real (\<Sum>r\<leftarrow>table_descending. count r) = 1/10"
proof -
  have len: "length targets_top_ten = length scores_descending"
    by (simp add: targets_top_ten_def scores_descending_def scores_ascending_def)
  have l100: "length targets_top_ten = 100"
    by (simp add: targets_top_ten_def)
  have my: "mean targets_top_ten = Some (1/10)"
    by (simp add: mean_def targets_top_ten_def sum_list_replicate)
  from decile_table_totals[OF decile_table_hundred] len decile_table_hundred l100 my
  show ?thesis by simp
qed

text \<open>
  Claim C3 fails on the code. On the hundred-row run the analysis succeeds; the grouped
  statistics are in bin order (the last record holds the ten responders of the top bin,
  response rate 1), but the label column is in order of first appearance: the first
  record is labelled \<open>D10\<close> and the last one \<open>D1\<close>.
\<close>

theorem decile_labels_follow_first_appearance:
  "decile_table targets_top_ten scores_descending = Inr table_descending \<and>
   map decile table_descending =
     [''D10'', ''D9'', ''D8'', ''D7'', ''D6'', ''D5'', ''D4'', ''D3'', ''D2'', ''D1''] \<and>
   map response_rate table_descending =
     [Some 0, Some 0, Some 0, Some 0, Some 0, Some 0, Some 0, Some 0, Some 0, Some 1] \<and>
   decile (last table_descending) = ''D1'' \<and>
   response_rate (last table_descending) = Some 1"
  using decile_table_hundred by (simp add: table_descending_def)


section \<open>Properties of the Rule Generator\<close>

lemma generate_loop_parts:
  "generate_loop df cfg sf coefs idx names = Inr rs \<Longrightarrow>
   \<exists>parts. length parts = length names \<and> rs = concat parts \<and>
     (\<forall>i<length names. idx + i < length coefs \<and>
        feature_rules df cfg sf (names ! i) (coefs ! (idx + i)) = Inr (parts ! i))"
proof (induction names arbitrary: idx rs)
  case Nil
  then show ?case by simp
next
  case (Cons name names)
  from Cons.prems obtain r later where
    idx: "idx < length coefs"
    and r: "feature_rules df cfg sf name (coefs ! idx) = Inr r"
    and l: "generate_loop df cfg sf coefs (Suc idx) names = Inr later"
    and rs: "rs = r @ later"
    by (auto split: if_splits sum.splits)
  from Cons.IH[OF l] obtain parts where p: "length parts = length names" "later = concat parts"
    "\<forall>i<length names. Suc idx + i < length coefs \<and>
        feature_rules df cfg sf (names ! i) (coefs ! (Suc idx + i)) = Inr (parts ! i)"
    by blast
  have "\<forall>i<length (name # names). idx + i < length coefs \<and>
        feature_rules df cfg sf ((name # names) ! i) (coefs ! (idx + i)) = Inr ((r # parts) ! i)"
  proof (intro allI impI)
    fix i assume "i < length (name # names)"
    then show "idx + i < length coefs \<and>
        feature_rules df cfg sf ((name # names) ! i) (coefs ! (idx + i)) = Inr ((r # parts) ! i)"
      using idx r p(3) by (cases i) auto
  qed
  then show ?case using p rs
    by (intro exI[of _ "r # parts"]) simp
qed

lemma generate_parts:
  assumes "generate_scoring_rules df coefs names cfg base_score sf = Inr rules"
  obtains parts where "length parts = length names"
    and "rules = base_rule base_score # concat parts"
    and "\<And>i. i < length names \<Longrightarrow> i < length coefs"
    and "\<And>i. i < length names \<Longrightarrow> feature_rules df cfg sf (names ! i) (coefs ! i) = Inr (parts ! i)"
proof -
  from assms obtain rs where l: "generate_loop df cfg sf coefs 0 names = Inr rs"
    and r: "rules = base_rule base_score # rs"
    by (auto simp: generate_scoring_rules_def split: sum.splits)
  from generate_loop_parts[OF l] obtain parts where "length parts = length names"
    "rs = concat parts"
    "\<forall>i<length names. 0 + i < length coefs \<and>
        feature_rules df cfg sf (names ! i) (coefs ! (0 + i)) = Inr (parts ! i)"
    by blast
  with r that show ?thesis by simp
qed


lemma reduce_in_set:
  assumes "xs \<noteq> []"
  shows "reduce min xs \<in> set xs" and "reduce max xs \<in> set (xs :: real list)"
proof -
  obtain x ys where xs: "xs = x # ys" using assms by (cases xs) auto
  have "reduce min xs = Min (set xs)"
    unfolding xs reduce_def by (simp only: list.sel Min.set_eq_fold)
  then show "reduce min xs \<in> set xs" using assms by (simp del: Min_in add: Min_in[of "set xs"])
  have "reduce max xs = Max (set xs)"
    unfolding xs reduce_def by (simp only: list.sel Max.set_eq_fold)
  then show "reduce max xs \<in> set xs" using assms by (simp del: Max_in add: Max_in[of "set xs"])
qed

lemma present_values_nonempty:
  "notna_any (NumCol xs) \<Longrightarrow> present_values xs \<noteq> []"
proof -
  assume "notna_any (NumCol xs)"
  then obtain x where x: "x \<in> set xs" "cell_of x \<noteq> Null"
    by (auto simp: notna_any_def list_ex_iff)
  from x(2) have "x \<noteq> None" by (cases x) auto
  with x(1) have "x \<in> set (filter (\<lambda>x. x \<noteq> None) xs)" by simp
  then have "filter (\<lambda>x. x \<noteq> None) xs \<noteq> []" by (metis empty_iff empty_set)
  then show ?thesis by (simp add: present_values_def)
qed

lemma adjusted_rules_numerical:
  assumes "adjusted_rules df cfg name adj = Inr rs"
    and "var_type_of cfg name = ''numerical''"
  obtains c where "map_of (cols df) name = Some c" and "\<not> notna_any c" and "rs = []"
  | c lo hi high_adj med_adj where "map_of (cols df) name = Some c" and "notna_any c"
    and "range_bounds (details_of cfg (var_base_of name)) c = Inr (Num lo, Num hi)"
    and "int_of_product adj seven_tenths = Inr high_adj"
    and "int_of_product adj three_tenths = Inr med_adj"
    and "rs = [threshold_rule name (lo + 7/10 * (hi - lo)) high_adj,
               threshold_rule name (lo + 3/10 * (hi - lo)) med_adj]"
  using assms
  by (auto simp: adjusted_rules_def split: option.splits if_splits sum.splits prod.splits cell.splits)

lemma adjusted_rules_present:
  assumes "adjusted_rules df cfg name adj = Inr rs"
    and "var_type_of cfg name \<noteq> ''numerical''"
  shows "rs = [\<lparr>variable = name, condition = ''present'', threshold = None,
                adjustment = adj,
                description =
                  (if CHR ''_'' \<in> set name
                   then ''If '' @ var_base_of name @ '' is '' @ category_of name
                   else ''If '' @ name @ '' is present'')\<rparr>]"
  using assms
  by (auto simp: adjusted_rules_def split: if_splits)

lemma range_bounds_sources:
  assumes "range_bounds vc c = Inr (Num lo, Num hi)"
  shows "(case fst (configured_bounds vc) of Some a \<Rightarrow> lo = a | None \<Rightarrow> col_min c = Inr (Num lo))"
    and "(case snd (configured_bounds vc) of Some b \<Rightarrow> hi = b | None \<Rightarrow> col_max c = Inr (Num hi))"
  using assms
  by (auto simp: range_bounds_def split: option.splits range_cfg.splits sum.splits)

lemma unit_interval_thresholds:
  assumes "range_bounds vc (NumCol xs) = Inr (Num lo, Num hi)"
    and "vrange vc = None" and "notna_any (NumCol xs)"
    and "\<forall>v\<in>set (present_values xs). 0 \<le> v \<and> v \<le> 1"
    and that: "0 \<le> q" "q \<le> 1"
  shows "0 \<le> lo + q * (hi - lo) \<and> lo + q * (hi - lo) \<le> 1"
proof -
  have ne: "present_values xs \<noteq> []" by (rule present_values_nonempty[OF assms(3)])
  from assms(1,2) have lo: "lo = reduce min (present_values xs)"
    and hi: "hi = reduce max (present_values xs)"
    by (auto simp: range_bounds_def configured_bounds_def col_min_def col_max_def col_extreme_def
        split: sum.splits)
  have l: "0 \<le> lo \<and> lo \<le> 1" using reduce_in_set(1)[OF ne] assms(4) lo by auto
  have h: "0 \<le> hi \<and> hi \<le> 1" using reduce_in_set(2)[OF ne] assms(4) hi by auto
  have eq: "lo + q * (hi - lo) = (1 - q) * lo + q * hi" by (simp add: algebra_simps)
  have "0 \<le> (1 - q) * lo + q * hi" using l h that by simp
  moreover have "(1 - q) * lo + q * hi \<le> (1 - q) * 1 + q * 1"
    using l h that by (intro add_mono mult_left_mono) auto
  ultimately show ?thesis by (simp add: eq)
qed


text \<open>
  Claim C5 (as amended). Whenever the generator returns, the rules after the base rule are
  the rules of the features in turn, and for every feature:

  \<^item> a coefficient of absolute value below 0.01 gives no rule;

  \<^item> otherwise, when the name of the feature up to its first underscore is a variable
    configured with type \<open>numerical\<close>, the feature has a column in the frame, and when
    that column has a non-missing cell the feature gets exactly two threshold rules, with
    the thresholds \<open>lo + 0.7 * (hi - lo)\<close> and \<open>lo + 0.3 * (hi - lo)\<close>, where \<open>lo\<close> and
    \<open>hi\<close> are the \<open>min\<close> and \<open>max\<close> of the configured range where the configuration
    gives them, and the minimum and maximum of the feature's column in the frame
    otherwise; the adjustments are \<open>int(adjustment * 0.7)\<close> and \<open>int(adjustment * 0.3)\<close>,
    the binary64 products truncated toward zero; when no range is configured and the
    values of the (numeric) column lie in \<open>[0,1]\<close>, both thresholds lie in \<open>[0,1]\<close>; a
    column of missing cells only gives no rule;

  \<^item> otherwise the feature gets one \<open>present\<close> rule with the full adjustment, described
    as \<open>If <prefix> is <rest of the name>\<close> when the name holds an underscore.

  The type is looked up under the name up to the first underscore, so a variable
  declared numerical whose own name holds an underscore falls under the last case unless
  that prefix is configured numerical too. The thresholds are computed in exact
  arithmetic.
\<close>

theorem threshold_rules_from_range:
  assumes "generate_scoring_rules df coefs names cfg base_score scale_factor = Inr rules"
  shows "(\<exists>parts. length parts = length names \<and>
      rules = base_rule base_score # concat parts \<and>
      (\<forall>i<length names.
         if \<bar>coefs ! i\<bar> < 1/100 then parts ! i = []
         else if var_type_of cfg (names ! i) = ''numerical'' then
           (\<exists>c. map_of (cols df) (names ! i) = Some c \<and>
              (if notna_any c then
                 (\<exists>lo hi high_adj med_adj.
                    (case fst (configured_bounds (details_of cfg (var_base_of (names ! i)))) of
                       Some a \<Rightarrow> lo = a
                     | None \<Rightarrow> col_min c = Inr (Num lo)) \<and>
                    (case snd (configured_bounds (details_of cfg (var_base_of (names ! i)))) of
                       Some b \<Rightarrow> hi = b
                     | None \<Rightarrow> col_max c = Inr (Num hi)) \<and>
                    int_of_product (py_int (coefs ! i * of_int scale_factor)) seven_tenths = Inr high_adj \<and>
                    int_of_product (py_int (coefs ! i * of_int scale_factor)) three_tenths = Inr med_adj \<and>
                    parts ! i =
                      [threshold_rule (names ! i) (lo + 7/10 * (hi - lo)) high_adj,
                       threshold_rule (names ! i) (lo + 3/10 * (hi - lo)) med_adj] \<and>
                    (vrange (details_of cfg (var_base_of (names ! i))) = None \<longrightarrow>
                     (\<forall>xs. c = NumCol xs \<longrightarrow> (\<forall>v\<in>set (present_values xs). 0 \<le> v \<and> v \<le> 1) \<longrightarrow>
                        0 \<le> lo + 3/10 * (hi - lo) \<and> lo + 3/10 * (hi - lo) \<le> 1 \<and>
                        0 \<le> lo + 7/10 * (hi - lo) \<and> lo + 7/10 * (hi - lo) \<le> 1)))
               else parts ! i = []))
         else
           parts ! i =
             [\<lparr>variable = names ! i, condition = ''present'', threshold = None,
               adjustment = py_int (coefs ! i * of_int scale_factor),
               description =
                 (if CHR ''_'' \<in> set (names ! i)
                  then ''If '' @ var_base_of (names ! i) @ '' is '' @ category_of (names ! i)
                  else ''If '' @ names ! i @ '' is present'')\<rparr>]))"
proof -
  obtain parts where len: "length parts = length names"
    and rules: "rules = base_rule base_score # concat parts"
    and "\<And>i. i < length names \<Longrightarrow> i < length coefs"
    and fr: "\<And>i. i < length names \<Longrightarrow>
               feature_rules df cfg scale_factor (names ! i) (coefs ! i) = Inr (parts ! i)"
    by (rule generate_parts[OF assms]) blast
  have "if \<bar>coefs ! i\<bar> < 1/100 then parts ! i = []
         else if var_type_of cfg (names ! i) = ''numerical'' then
           (\<exists>c. map_of (cols df) (names ! i) = Some c \<and>
              (if notna_any c then
                 (\<exists>lo hi high_adj med_adj.
                    (case fst (configured_bounds (details_of cfg (var_base_of (names ! i)))) of
                       Some a \<Rightarrow> lo = a
                     | None \<Rightarrow> col_min c = Inr (Num lo)) \<and>
                    (case snd (configured_bounds (details_of cfg (var_base_of (names ! i)))) of
                       Some b \<Rightarrow> hi = b
                     | None \<Rightarrow> col_max c = Inr (Num hi)) \<and>
                    int_of_product (py_int (coefs ! i * of_int scale_factor)) seven_tenths = Inr high_adj \<and>
                    int_of_product (py_int (coefs ! i * of_int scale_factor)) three_tenths = Inr med_adj \<and>
                    parts ! i =
                      [threshold_rule (names ! i) (lo + 7/10 * (hi - lo)) high_adj,
                       threshold_rule (names ! i) (lo + 3/10 * (hi - lo)) med_adj] \<and>
                    (vrange (details_of cfg (var_base_of (names ! i))) = None \<longrightarrow>
                     (\<forall>xs. c = NumCol xs \<longrightarrow> (\<forall>v\<in>set (present_values xs). 0 \<le> v \<and> v \<le> 1) \<longrightarrow>
                        0 \<le> lo + 3/10 * (hi - lo) \<and> lo + 3/10 * (hi - lo) \<le> 1 \<and>
                        0 \<le> lo + 7/10 * (hi - lo) \<and> lo + 7/10 * (hi - lo) \<le> 1)))
               else parts ! i = []))
         else
           parts ! i =
             [\<lparr>variable = names ! i, condition = ''present'', threshold = None,
               adjustment = py_int (coefs ! i * of_int scale_factor),
               description =
                 (if CHR ''_'' \<in> set (names ! i)
                  then ''If '' @ var_base_of (names ! i) @ '' is '' @ category_of (names ! i)
                  else ''If '' @ names ! i @ '' is present'')\<rparr>]"
    if i: "i < length names" for i
  proof (cases "\<bar>coefs ! i\<bar> < 1/100")
    case True
    then show ?thesis using fr[OF i] by (simp add: feature_rules_def)
  next
    case False
    let ?vc = "details_of cfg (var_base_of (names ! i))"
    let ?adj = "py_int (coefs ! i * of_int scale_factor)"
    from False fr[OF i] have ar: "adjusted_rules df cfg (names ! i) ?adj = Inr (parts ! i)"
      by (simp add: feature_rules_def)
    show ?thesis
    proof (cases "var_type_of cfg (names ! i) = ''numerical''")
      case num: True
      from ar num show ?thesis
      proof (cases rule: adjusted_rules_numerical)
        case (1 c)
        with False num show ?thesis by simp
      next
        case (2 c lo hi high_adj med_adj)
        have unit: "0 \<le> lo + 3/10 * (hi - lo) \<and> lo + 3/10 * (hi - lo) \<le> 1 \<and>
                    0 \<le> lo + 7/10 * (hi - lo) \<and> lo + 7/10 * (hi - lo) \<le> 1"
          if "vrange ?vc = None" "c = NumCol xs" "\<forall>v\<in>set (present_values xs). 0 \<le> v \<and> v \<le> 1" for xs
          using unit_interval_thresholds[of ?vc xs lo hi "3/10"]
            unit_interval_thresholds[of ?vc xs lo hi "7/10"] 2(2,3) that by simp
        have "\<exists>lo hi high_adj med_adj.
                    (case fst (configured_bounds ?vc) of
                       Some a \<Rightarrow> lo = a
                     | None \<Rightarrow> col_min c = Inr (Num lo)) \<and>
                    (case snd (configured_bounds ?vc) of
                       Some b \<Rightarrow> hi = b
                     | None \<Rightarrow> col_max c = Inr (Num hi)) \<and>
                    int_of_product ?adj seven_tenths = Inr high_adj \<and>
                    int_of_product ?adj three_tenths = Inr med_adj \<and>
                    parts ! i =
                      [threshold_rule (names ! i) (lo + 7/10 * (hi - lo)) high_adj,
                       threshold_rule (names ! i) (lo + 3/10 * (hi - lo)) med_adj] \<and>
                    (vrange ?vc = None \<longrightarrow>
                     (\<forall>xs. c = NumCol xs \<longrightarrow> (\<forall>v\<in>set (present_values xs). 0 \<le> v \<and> v \<le> 1) \<longrightarrow>
                        0 \<le> lo + 3/10 * (hi - lo) \<and> lo + 3/10 * (hi - lo) \<le> 1 \<and>
                        0 \<le> lo + 7/10 * (hi - lo) \<and> lo + 7/10 * (hi - lo) \<le> 1))"
          using range_bounds_sources[OF 2(3)] 2(4,5,6) unit by blast
        with False num 2(1,2) show ?thesis by simp
      qed
    next
      case cat: False
      from adjusted_rules_present[OF ar cat] False cat show ?thesis by simp
    qed
  qed
  with len rules show ?thesis by blast
qed

theorem threshold_rules_from_range_witness:
  "generate_scoring_rules prepared_frame [9/100, 1/2] [''income'', ''segment_gold'']
     (sample_config None) 1000 1000 =
     Inr [base_rule 1000, threshold_rule ''income'' (7/10) 62, threshold_rule ''income'' (3/10) 27,
        \<lparr>variable = ''segment_gold'', condition = ''present'', threshold = None,
         adjustment = 500, description = ''If segment is gold''\<rparr>] \<and>
   (\<exists>parts. length parts = length [''income'', ''segment_gold''] \<and>
      [base_rule 1000, threshold_rule ''income'' (7/10) 62, threshold_rule ''income'' (3/10) 27,
        \<lparr>variable = ''segment_gold'', condition = ''present'', threshold = None,
         adjustment = 500, description = ''If segment is gold''\<rparr>] = base_rule 1000 # concat parts \<and>
      (\<forall>i<length [''income'', ''segment_gold''].
         if \<bar>([9/100, 1/2] :: real list) ! i\<bar> < 1/100 then parts ! i = []
         else if var_type_of (sample_config None) ([''income'', ''segment_gold''] ! i) = ''numerical'' then
           (\<exists>c. map_of (cols prepared_frame) ([''income'', ''segment_gold''] ! i) = Some c \<and>
              (if notna_any c then
                 (\<exists>lo hi high_adj med_adj.
                    (case fst (configured_bounds (details_of (sample_config None) (var_base_of ([''income'', ''segment_gold''] ! i)))) of
                       Some a \<Rightarrow> lo = a
                     | None \<Rightarrow> col_min c = Inr (Num lo)) \<and>
                    (case snd (configured_bounds (details_of (sample_config None) (var_base_of ([''income'', ''segment_gold''] ! i)))) of
                       Some b \<Rightarrow> hi = b
                     | None \<Rightarrow> col_max c = Inr (Num hi)) \<and>
                    int_of_product (py_int (([9/100, 1/2] :: real list) ! i * of_int 1000)) seven_tenths = Inr high_adj \<and>
                    int_of_product (py_int (([9/100, 1/2] :: real list) ! i * of_int 1000)) three_tenths = Inr med_adj \<and>
                    parts ! i =
                      [threshold_rule ([''income'', ''segment_gold''] ! i) (lo + 7/10 * (hi - lo)) high_adj,
                       threshold_rule ([''income'', ''segment_gold''] ! i) (lo + 3/10 * (hi - lo)) med_adj] \<and>
                    (vrange (details_of (sample_config None) (var_base_of ([''income'', ''segment_gold''] ! i))) = None \<longrightarrow>
                     (\<forall>xs. c = NumCol xs \<longrightarrow> (\<forall>v\<in>set (present_values xs). 0 \<le> v \<and> v \<le> 1) \<longrightarrow>
                        0 \<le> lo + 3/10 * (hi - lo) \<and> lo + 3/10 * (hi - lo) \<le> 1 \<and>
                        0 \<le> lo + 7/10 * (hi - lo) \<and> lo + 7/10 * (hi - lo) \<le> 1)))
               else parts ! i = []))
         else
           parts ! i =
             [\<lparr>variable = [''income'', ''segment_gold''] ! i, condition = ''present'', threshold = None,
               adjustment = py_int (([9/100, 1/2] :: real list) ! i * of_int 1000),
               description =
                 (if CHR ''_'' \<in> set ([''income'', ''segment_gold''] ! i)
                  then ''If '' @ var_base_of ([''income'', ''segment_gold''] ! i) @ '' is '' @ category_of ([''income'', ''segment_gold''] ! i)
                  else ''If '' @ [''income'', ''segment_gold''] ! i @ '' is present'')\<rparr>]))"
proof -
  have g: "generate_scoring_rules prepared_frame [9/100, 1/2] [''income'', ''segment_gold'']
     (sample_config None) 1000 1000 =
     Inr [base_rule 1000, threshold_rule ''income'' (7/10) 62, threshold_rule ''income'' (3/10) 27,
        \<lparr>variable = ''segment_gold'', condition = ''present'', threshold = None,
         adjustment = 500, description = ''If segment is gold''\<rparr>]"
    by (simp add: generate_scoring_rules_def feature_rules_def adjusted_rules_def var_type_of_def
        details_of_def sample_config_def income_details_def segment_details_def var_base_of_def
        category_of_def prepared_frame_def
        notna_any_def range_bounds_def configured_bounds_def col_min_def col_max_def
        col_extreme_def present_values_def reduce_def py_int_def
        int_of_product_def float_of_int_def round53_def seven_tenths_def three_tenths_def
        excess_bits.simps)
  from g threshold_rules_from_range[OF g] show ?thesis by (rule conjI)
qed

text \<open>
  Claim C5 as stated fails: with a configured range \<open>{min: 10, max: 50}\<close> the thresholds
  of a column scaled to \<open>[0,1]\<close> are 38 and 22.
\<close>

theorem thresholds_in_original_units_counterexample:
  "generate_scoring_rules prepared_frame [1/2] [''income'']
     (sample_config (Some (RangeDict (Some 10) (Some 50)))) 1000 1000 =
     Inr [base_rule 1000, threshold_rule ''income'' 38 350, threshold_rule ''income'' 22 150] \<and>
   map_of (cols prepared_frame) ''income'' = Some (NumCol [Some 0, Some (1/2), Some 1]) \<and>
   \<not> (38 \<le> (1::real)) \<and> \<not> (22 \<le> (1::real))"
  by (simp add: generate_scoring_rules_def feature_rules_def adjusted_rules_def var_type_of_def
        details_of_def sample_config_def income_details_def var_base_of_def prepared_frame_def
        notna_any_def range_bounds_def configured_bounds_def col_min_def col_max_def
        col_extreme_def present_values_def reduce_def py_int_def
        int_of_product_def float_of_int_def round53_def seven_tenths_def three_tenths_def
        excess_bits.simps)

text \<open>
  Three inputs outside the amended claim. The float product: the adjustment 90 gives the
  high rule 62 points, one less than the truncation of the exact 70 percent.
  A variable declared numerical whose name holds an underscore is looked up under
  \<open>annual\<close>, found nowhere, and treated as a one-hot indicator. A range stored as a
  two-element list, and a feature without a column in the frame, make the generator raise.
\<close>

lemma float_product_below_exact:
  "int_of_product 90 seven_tenths = Inr 62 \<and> py_int (90 * (7/10)) = 63"
  by (simp add: int_of_product_def float_of_int_def round53_def seven_tenths_def
        excess_bits.simps py_int_def)

lemma underscore_named_variable_rule:
  "generate_scoring_rules underscore_frame [1/2] [''annual_income''] underscore_config 1000 1000 =
     Inr [base_rule 1000,
          \<lparr>variable = ''annual_income'', condition = ''present'', threshold = None,
           adjustment = 500, description = ''If annual is income''\<rparr>]"
  by (simp add: generate_scoring_rules_def feature_rules_def adjusted_rules_def var_type_of_def
        details_of_def underscore_config_def no_details_def var_base_of_def category_of_def
        py_int_def)

lemma list_range_raises:
  "generate_scoring_rules prepared_frame [1/2] [''income'']
     (sample_config (Some (RangeList [0, 1]))) 1000 1000 = Inl AttributeError"
  by (simp add: generate_scoring_rules_def feature_rules_def adjusted_rules_def var_type_of_def
        details_of_def sample_config_def income_details_def var_base_of_def prepared_frame_def
        notna_any_def range_bounds_def)

lemma absent_column_raises:
  "generate_scoring_rules underscore_frame [1/2] [''income''] (sample_config None) 1000 1000 =
     Inl (KeyError ''income'')"
  by (simp add: generate_scoring_rules_def feature_rules_def adjusted_rules_def var_type_of_def
        details_of_def sample_config_def income_details_def var_base_of_def
        underscore_frame_def)

text \<open>
  Claim C6 (as amended). A feature whose coefficient has absolute value below 0.01
  produces no rule. For every other feature the rules are those of the adjustment
  \<open>int(coefficient * scale_factor)\<close>, the product truncated toward zero (in exact
  arithmetic); a feature that is not of a numerical variable gets one \<open>present\<close> rule
  carrying exactly that adjustment.
\<close>

theorem base_adjustment_truncates:
  assumes "generate_scoring_rules df coefs names cfg base_score scale_factor = Inr rules"
  shows "(\<exists>parts. length parts = length names \<and>
      rules = base_rule base_score # concat parts \<and>
      (\<forall>i<length names.
         if \<bar>coefs ! i\<bar> < 1/100 then parts ! i = []
         else adjusted_rules df cfg (names ! i) (py_int (coefs ! i * of_int scale_factor)) = Inr (parts ! i) \<and>
              (var_type_of cfg (names ! i) \<noteq> ''numerical'' \<longrightarrow>
               map adjustment (parts ! i) = [py_int (coefs ! i * of_int scale_factor)] \<and>
               map condition (parts ! i) = [''present''])))"
proof -
  obtain parts where len: "length parts = length names"
    and rules: "rules = base_rule base_score # concat parts"
    and "\<And>i. i < length names \<Longrightarrow> i < length coefs"
    and fr: "\<And>i. i < length names \<Longrightarrow>
               feature_rules df cfg scale_factor (names ! i) (coefs ! i) = Inr (parts ! i)"
    by (rule generate_parts[OF assms]) blast
  have "if \<bar>coefs ! i\<bar> < 1/100 then parts ! i = []
         else adjusted_rules df cfg (names ! i) (py_int (coefs ! i * of_int scale_factor)) = Inr (parts ! i) \<and>
              (var_type_of cfg (names ! i) \<noteq> ''numerical'' \<longrightarrow>
               map adjustment (parts ! i) = [py_int (coefs ! i * of_int scale_factor)] \<and>
               map condition (parts ! i) = [''present''])"
    if i: "i < length names" for i
  proof (cases "\<bar>coefs ! i\<bar> < 1/100")
    case True
    then show ?thesis using fr[OF i] by (simp add: feature_rules_def)
  next
    case False
    let ?adj = "py_int (coefs ! i * of_int scale_factor)"
    from False fr[OF i] have ar: "adjusted_rules df cfg (names ! i) ?adj = Inr (parts ! i)"
      by (simp add: feature_rules_def)
    have "map adjustment (parts ! i) = [?adj] \<and> map condition (parts ! i) = [''present'']"
      if nn: "var_type_of cfg (names ! i) \<noteq> ''numerical''"
    proof -
      from ar[symmetric] nn have "parts ! i =
          (if CHR ''_'' \<in> set (names ! i) then
             [\<lparr>variable = names ! i, condition = ''present'', threshold = None,
               adjustment = ?adj,
               description = ''If '' @ var_base_of (names ! i) @ '' is '' @
                             category_of (names ! i)\<rparr>]
           else
             [\<lparr>variable = names ! i, condition = ''present'', threshold = None,
               adjustment = ?adj,
               description = ''If '' @ names ! i @ '' is present''\<rparr>])"
        by (simp add: adjusted_rules_def split: if_splits)
      then show ?thesis by simp
    qed
    with False ar show ?thesis by simp
  qed
  with len rules show ?thesis by blast
qed

theorem base_adjustment_truncates_witness:
  "generate_scoring_rules prepared_frame [1/200, -5/256] [''income'', ''segment_gold''] (sample_config None) 1000 1000 =
     Inr [base_rule 1000, \<lparr>variable = ''segment_gold'', condition = ''present'', threshold = None, adjustment = -19, description = ''If segment is gold''\<rparr>] \<and>
   (\<exists>parts. length parts = length [''income'', ''segment_gold''] \<and>
      [base_rule 1000, \<lparr>variable = ''segment_gold'', condition = ''present'', threshold = None, adjustment = -19, description = ''If segment is gold''\<rparr>] = base_rule 1000 # concat parts \<and>
      (\<forall>i<length [''income'', ''segment_gold''].
         if \<bar>([1/200, -5/256] :: real list) ! i\<bar> < 1/100 then parts ! i = []
         else adjusted_rules prepared_frame (sample_config None) ([''income'', ''segment_gold''] ! i) (py_int ([1/200, -5/256] ! i * of_int 1000)) = Inr (parts ! i) \<and>
              (var_type_of (sample_config None) ([''income'', ''segment_gold''] ! i) \<noteq> ''numerical'' \<longrightarrow>
               map adjustment (parts ! i) = [py_int ([1/200, -5/256] ! i * of_int 1000)] \<and>
               map condition (parts ! i) = [''present''])))"
proof -
  have g: "generate_scoring_rules prepared_frame [1/200, -5/256] [''income'', ''segment_gold''] (sample_config None) 1000 1000 =
     Inr [base_rule 1000, \<lparr>variable = ''segment_gold'', condition = ''present'', threshold = None, adjustment = -19, description = ''If segment is gold''\<rparr>]"
    by (simp add: generate_scoring_rules_def feature_rules_def adjusted_rules_def var_type_of_def
        details_of_def sample_config_def segment_details_def var_base_of_def category_of_def
        py_int_def)
  from g base_adjustment_truncates[OF g] show ?thesis by (rule conjI)
qed

text \<open>
  Claim C6 as stated fails: the coefficient \<open>5/256 = 0.01953125\<close> gives
  \<open>19.53125\<close>, which rounds to 20, and the rule carries 19.
\<close>

theorem adjustment_not_rounded_counterexample:
  "generate_scoring_rules prepared_frame [5/256] [''segment_gold''] (sample_config None) 1000 1000 =
     Inr [base_rule 1000,
          \<lparr>variable = ''segment_gold'', condition = ''present'', threshold = None,
           adjustment = 19, description = ''If segment is gold''\<rparr>] \<and>
   \<bar>5/256 :: real\<bar> \<ge> 1/100 \<and>
   round (5/256 * 1000 :: real) = 20"
  by (simp add: generate_scoring_rules_def feature_rules_def adjusted_rules_def var_type_of_def
        details_of_def sample_config_def segment_details_def var_base_of_def category_of_def
        py_int_def round_def)


section \<open>Properties of the Feature Transformer\<close>

lemma reduce_min_Min: "xs \<noteq> [] \<Longrightarrow> reduce min xs = Min (set (xs :: real list))"
  by (cases xs) (simp_all only: reduce_def list.sel Min.set_eq_fold)

lemma reduce_max_Max: "xs \<noteq> [] \<Longrightarrow> reduce max xs = Max (set (xs :: real list))"
  by (cases xs) (simp_all only: reduce_def list.sel Max.set_eq_fold)

lemma present_values_map:
  "present_values (map (map_option f) xs) = map f (present_values xs)"
  by (induction xs) (auto simp: present_values_def)

lemma present_values_fillna:
  "present_values (fillna (Some m) xs) = map (\<lambda>x. case x of None \<Rightarrow> m | Some v \<Rightarrow> v) xs"
  by (induction xs) (auto simp: present_values_def fillna_def split: option.splits)

lemma set_present_values: "set (present_values xs) = {v. Some v \<in> set xs}"
  by (induction xs) (auto simp: present_values_def)

lemma median_bounds:
  assumes "vs \<noteq> []"
  obtains m where "median vs = Some m" "Min (set vs) \<le> m" "m \<le> Max (set vs)"
proof -
  let ?s = "sort vs"
  let ?n = "length ?s"
  have n: "0 < ?n" using assms by simp
  have ne: "?s \<noteq> []" using assms by (metis length_0_conv length_sort)
  have bnd: "Min (set vs) \<le> ?s ! k \<and> ?s ! k \<le> Max (set vs)" if "k < ?n" for k
  proof -
    have "?s ! k \<in> set ?s" using that by (rule nth_mem)
    then have "?s ! k \<in> set vs" by simp
    then show ?thesis by simp
  qed
  show ?thesis
  proof (cases "odd ?n")
    case True
    have "median vs = Some (?s ! (?n div 2))"
      using True n ne by (simp add: median_def Let_def)
    moreover have "?n div 2 < ?n" using n by simp
    ultimately show ?thesis using bnd that by blast
  next
    case False
    have m: "median vs = Some ((?s ! (?n div 2 - 1) + ?s ! (?n div 2)) / 2)"
      using False n ne by (simp add: median_def Let_def)
    have k1: "?n div 2 - 1 < ?n" and k2: "?n div 2 < ?n" using n by arith+
    from bnd[OF k1] bnd[OF k2]
    have "Min (set vs) \<le> (?s ! (?n div 2 - 1) + ?s ! (?n div 2)) / 2 \<and>
          (?s ! (?n div 2 - 1) + ?s ! (?n div 2)) / 2 \<le> Max (set vs)"
      by (simp add: field_simps)
    with m that show ?thesis by blast
  qed
qed

lemma Min_with_inner_point:
  assumes "finite A" "A \<noteq> {}" "A \<subseteq> B" "B \<subseteq> insert m A" "Min A \<le> (m::real)"
  shows "Min B = Min A"
proof (rule Min_eqI)
  show "finite B" using assms(1,4) by (meson finite.insertI finite_subset)
  show "Min A \<in> B" using assms(1,2,3) Min_in by blast
  fix y assume "y \<in> B"
  with assms(4) have "y = m \<or> y \<in> A" by auto
  then show "Min A \<le> y" using assms(1,5) by auto
qed

lemma Max_with_inner_point:
  assumes "finite A" "A \<noteq> {}" "A \<subseteq> B" "B \<subseteq> insert m A" "(m::real) \<le> Max A"
  shows "Max B = Max A"
proof (rule Max_eqI)
  show "finite B" using assms(1,4) by (meson finite.insertI finite_subset)
  show "Max A \<in> B" using assms(1,2,3) Max_in by blast
  fix y assume "y \<in> B"
  with assms(4) have "y = m \<or> y \<in> A" by auto
  then show "y \<le> Max A" using assms(1,5) by auto
qed


lemma filled_mem:
  "Some y \<in> set xs \<Longrightarrow> y \<in> set (map (\<lambda>x. case x of None \<Rightarrow> m | Some v \<Rightarrow> v) xs)"
  by (induction xs) auto

lemma length_fillna: "length (fillna m xs) = length xs"
  by (simp add: fillna_def)

lemma fillna_nth:
  "i < length xs \<Longrightarrow> fillna (Some m) xs ! i = Some (case xs ! i of None \<Rightarrow> m | Some v \<Rightarrow> v)"
  by (simp add: fillna_def split: option.splits)

text \<open>
  Claim C7. For a numerical variable with direction "Lower values are better" and at
  least one parsed value, let \<open>mn\<close> and \<open>mx\<close> be the least and greatest parsed value. If
  they differ, every parsed value \<open>v\<close> becomes \<open>(mx - v) / (mx - mn)\<close> (inverted to
  \<open>mx - v\<close>, then scaled; missing cells take the median of the inverted values before
  scaling), every transformed value lies in \<open>[0,1]\<close>, and a row holding the original
  minimum gets 1. If they are equal, scaling is skipped and the column keeps the constant
  it has after inversion, which is 0.
\<close>

theorem lower_is_better_scaling:
  fixes parsed :: "real option list"
  defines "mn \<equiv> Min (set (present_values parsed))"
    and "mx \<equiv> Max (set (present_values parsed))"
    and "out \<equiv> transform_numeric (Some ''Lower values are better'') parsed"
  assumes ne: "present_values parsed \<noteq> []"
  shows "length out = length parsed \<and>
         (mn \<noteq> mx \<longrightarrow>
            (\<forall>i<length parsed.
               (\<exists>w. out ! i = Some w \<and> 0 \<le> w \<and> w \<le> 1) \<and>
               (\<forall>v. parsed ! i = Some v \<longrightarrow> out ! i = Some ((mx - v) / (mx - mn))) \<and>
               (parsed ! i = Some mn \<longrightarrow> out ! i = Some 1))) \<and>
         (mn = mx \<longrightarrow> out = map (\<lambda>x. Some 0) parsed)"
proof -
  let ?P = "present_values parsed"
  let ?inv = "map (map_option (\<lambda>v. mx - v)) parsed"
  let ?Q = "map (\<lambda>v. mx - v) ?P"
  have fin: "finite (set ?P)" and nes: "set ?P \<noteq> {}" using ne by simp_all
  have P_bounds: "mn \<le> v \<and> v \<le> mx" if "v \<in> set ?P" for v
    using that fin by (simp add: mn_def mx_def)
  have mx_in: "mx \<in> set ?P" and mn_in: "mn \<in> set ?P"
    unfolding mx_def mn_def using fin nes by (simp_all del: set_empty)
  have inv: "invert_values parsed = ?inv"
    using ne by (simp add: invert_values_def reduce_max_Max mx_def)
  have Q: "present_values ?inv = ?Q" by (rule present_values_map)
  have Qne: "?Q \<noteq> []" using ne by simp
  have minQ: "Min (set ?Q) = 0"
  proof (rule Min_eqI)
    show "finite (set ?Q)" by simp
    show "0 \<in> set ?Q" using mx_in by force
    show "0 \<le> y" if "y \<in> set ?Q" for y using that P_bounds by auto
  qed
  have maxQ: "Max (set ?Q) = mx - mn"
  proof (rule Max_eqI)
    show "finite (set ?Q)" by simp
    show "mx - mn \<in> set ?Q" using mn_in by force
    show "y \<le> mx - mn" if "y \<in> set ?Q" for y using that P_bounds by auto
  qed
  obtain m where m: "median ?Q = Some m" and m0: "0 \<le> m" and m1: "m \<le> mx - mn"
    using median_bounds[OF Qne] minQ maxQ by metis
  let ?filled = "fillna (Some m) ?inv"
  let ?F = "present_values ?filled"
  have F: "?F = map (\<lambda>x. case x of None \<Rightarrow> m | Some v \<Rightarrow> v) ?inv"
    by (rule present_values_fillna)
  have QF: "set ?Q \<subseteq> set ?F"
  proof
    fix y assume "y \<in> set ?Q"
    then obtain v where "Some v \<in> set parsed" "y = mx - v"
      by (auto simp: set_present_values)
    then have "Some y \<in> set ?inv" by force
    then show "y \<in> set ?F" unfolding F by (rule filled_mem)
  qed
  have FQ: "set ?F \<subseteq> insert m (set ?Q)"
  proof
    fix y assume "y \<in> set ?F"
    then obtain x where x: "x \<in> set parsed" "y = (case map_option (\<lambda>v. mx - v) x of None \<Rightarrow> m | Some v \<Rightarrow> v)"
      unfolding F by auto
    show "y \<in> insert m (set ?Q)"
    proof (cases x)
      case None
      then show ?thesis using x(2) by simp
    next
      case (Some v)
      then have "v \<in> set ?P" using x(1) by (simp add: set_present_values)
      then show ?thesis using x(2) Some by simp
    qed
  qed
  have Fne: "?F \<noteq> []" using QF Qne by auto
  have minF: "Min (set ?F) = 0"
    using Min_with_inner_point[of "set ?Q" "set ?F" m] QF FQ Qne m0 minQ by simp
  have maxF: "Max (set ?F) = mx - mn"
    using Max_with_inner_point[of "set ?Q" "set ?F" m] QF FQ Qne m1 maxQ by simp
  have out_eq: "out = (if mx - mn \<noteq> 0
                       then map (map_option (\<lambda>v. v / (mx - mn))) ?filled else ?filled)"
  proof -
    have filled: "fillna (median (present_values (invert_values parsed))) (invert_values parsed)
                  = ?filled"
      by (simp only: inv Q m)
    have "out = min_max_scale
                  (fillna (median (present_values (invert_values parsed))) (invert_values parsed))"
      unfolding out_def transform_numeric_def by (simp add: Let_def)
    then have o: "out = min_max_scale ?filled" unfolding filled .
    have "min_max_scale ?filled =
            (if Min (set ?F) \<noteq> Max (set ?F)
             then map (map_option (\<lambda>v. (v - Min (set ?F)) / (Max (set ?F) - Min (set ?F)))) ?filled
             else ?filled)"
      using Fne unfolding min_max_scale_def Let_def
      by (simp only: reduce_min_Min[OF Fne] reduce_max_Max[OF Fne] if_False)
    also have "\<dots> = (if 0 \<noteq> mx - mn
                       then map (map_option (\<lambda>v. (v - 0) / (mx - mn - 0))) ?filled else ?filled)"
      unfolding minF maxF ..
    also have "\<dots> = (if mx - mn \<noteq> 0
                       then map (map_option (\<lambda>v. v / (mx - mn))) ?filled else ?filled)"
      by (simp cong: if_cong)
    finally show ?thesis using o by simp
  qed
  have len: "length out = length parsed"
    by (simp add: out_eq length_fillna)
  have filled_nth: "?filled ! i = Some (case parsed ! i of None \<Rightarrow> m | Some v \<Rightarrow> mx - v)"
    if "i < length parsed" for i
    using that by (simp add: fillna_nth split: option.splits)
  have main: "(\<exists>w. out ! i = Some w \<and> 0 \<le> w \<and> w \<le> 1) \<and>
               (\<forall>v. parsed ! i = Some v \<longrightarrow> out ! i = Some ((mx - v) / (mx - mn))) \<and>
               (parsed ! i = Some mn \<longrightarrow> out ! i = Some 1)"
    if d: "mn \<noteq> mx" and i: "i < length parsed" for i
  proof -
    have pos: "0 < mx - mn" using P_bounds[OF mn_in] d by simp
    have o: "out ! i = Some ((case parsed ! i of None \<Rightarrow> m | Some v \<Rightarrow> mx - v) / (mx - mn))"
      using pos i by (simp add: out_eq filled_nth length_fillna)
    have rng: "0 \<le> (case parsed ! i of None \<Rightarrow> m | Some v \<Rightarrow> mx - v) \<and>
               (case parsed ! i of None \<Rightarrow> m | Some v \<Rightarrow> mx - v) \<le> mx - mn"
    proof (cases "parsed ! i")
      case None
      then show ?thesis using m0 m1 by simp
    next
      case (Some v)
      then have "Some v \<in> set parsed" using i by (metis nth_mem)
      then have "v \<in> set ?P" by (simp add: set_present_values)
      from P_bounds[OF this] Some show ?thesis by simp
    qed
    have a: "\<exists>w. out ! i = Some w \<and> 0 \<le> w \<and> w \<le> 1"
      using o rng pos by (simp add: divide_le_eq)
    have b: "\<forall>v. parsed ! i = Some v \<longrightarrow> out ! i = Some ((mx - v) / (mx - mn))"
      using o by simp
    have c: "parsed ! i = Some mn \<longrightarrow> out ! i = Some 1"
      using o pos by simp
    from a b c show ?thesis by blast
  qed
  have degenerate: "out = map (\<lambda>x. Some 0) parsed" if e: "mn = mx"
  proof (rule nth_equalityI)
    show "length out = length (map (\<lambda>x. Some 0) parsed)" using len by simp
    fix i assume "i < length out"
    then have i: "i < length parsed" using len by simp
    have m_zero: "m = 0" using m0 m1 e by simp
    have "(case parsed ! i of None \<Rightarrow> m | Some v \<Rightarrow> mx - v) = 0"
    proof (cases "parsed ! i")
      case None
      then show ?thesis using m_zero by simp
    next
      case (Some v)
      then have "Some v \<in> set parsed" using i by (metis nth_mem)
      then have "v \<in> set ?P" by (simp add: set_present_values)
      from P_bounds[OF this] e Some show ?thesis by simp
    qed
    then show "out ! i = map (\<lambda>x. Some 0) parsed ! i"
      using i e by (simp add: out_eq filled_nth length_fillna)
  qed
  from len main degenerate show ?thesis by blast
qed

theorem lower_is_better_scaling_witness:
  "present_values [Some 10, Some 50, None, Some 30] \<noteq> [] \<and>
   Min (set (present_values [Some 10, Some 50, None, Some 30])) = 10 \<and>
   Max (set (present_values [Some 10, Some 50, None, Some 30])) = 50 \<and>
   transform_numeric (Some ''Lower values are better'') [Some 10, Some 50, None, Some 30] ! 0 = Some 1 \<and>
   transform_numeric (Some ''Lower values are better'') [Some 10, Some 50, None, Some 30] ! 1 = Some 0 \<and>
   length (transform_numeric (Some ''Lower values are better'') [Some 10, Some 50, None, Some 30]) = 4"
proof -
  let ?xs = "[Some 10, Some 50, None, Some (30::real)]"
  have pv: "present_values ?xs = [10, 50, 30]" by (simp add: present_values_def)
  have ne: "present_values ?xs \<noteq> []" by (simp add: pv)
  have mn: "Min (set (present_values ?xs)) = 10" by (simp add: pv)
  have mx: "Max (set (present_values ?xs)) = 50" by (simp add: pv)
  note t = lower_is_better_scaling[OF ne, unfolded mn mx]
  from t have "length (transform_numeric (Some ''Lower values are better'') ?xs) = 4" by simp
  moreover from t have "transform_numeric (Some ''Lower values are better'') ?xs ! 0 = Some 1"
    by simp
  moreover from t have "transform_numeric (Some ''Lower values are better'') ?xs ! 1 = Some 0"
    by force
  ultimately show ?thesis using ne mn mx by blast
qed

text \<open>
  Claim C8 fails on the code. A numeric target with the values 0, 1 and missing has three
  distinct values for \<open>unique()\<close> and is rejected as not binary; a numeric target of zeros
  and ones only is accepted unchanged.
\<close>

theorem numeric_target_with_missing_rejected:
  "prepare_target plain_lib (NumCol [Some 0, Some 1, None]) =
     Inl (ValueError ''Target variable must be binary'') \<and>
   prepare_target plain_lib (NumCol [Some 0, Some 1, Some 1, Some 0]) =
     Inr (NumCol [Some 0, Some 1, Some 1, Some 0])"
  by (simp add: prepare_target_def)

text \<open>A numeric target is accepted exactly when every value is 0 or 1.\<close>

lemma numeric_target_accepted_iff:
  "(\<exists>c. prepare_target lib (NumCol xs) = Inr c) \<longleftrightarrow> set xs \<subseteq> {Some 0, Some 1}"
proof
  assume "\<exists>c. prepare_target lib (NumCol xs) = Inr c"
  then show "set xs \<subseteq> {Some 0, Some 1}"
    by (auto simp: prepare_target_def list_all_iff split: if_splits)
next
  assume s: "set xs \<subseteq> {Some 0, Some 1}"
  then have "set (map cell_of xs) \<subseteq> {Num 0, Num 1}" by auto
  then have "card (set (map cell_of xs)) \<le> card {Num 0, Num (1::real)}"
    by (intro card_mono) auto
  then have "length (remdups (map cell_of xs)) \<le> 2"
    by (simp add: length_remdups_card_conv)
  with s show "\<exists>c. prepare_target lib (NumCol xs) = Inr c"
    by (auto simp: prepare_target_def list_all_iff)
qed

text \<open>The preparation of the small dataset, stage by stage.\<close>

lemma categories_region:
  "categories [Str ''east'', Str ''west'', Str ''MISSING'', Str ''east''] =
     [Str ''MISSING'', Str ''east'', Str ''west'']"
  by code_simp

lemma parse_income:
  "parse_numeric plain_lib (ObjCol [Str ''$1,200'', Str ''800'', Null, Str ''2000'']) =
     [Some 1200, Some 800, None, Some 2000]"
  by (simp add: parse_numeric_def plain_lib_def strip_non_numeric_def parse_decimal_def
      parse_unsigned_def is_digit_def nat_of_digits_def)

lemma transform_income:
  "transform_numeric (Some ''Higher values are better'') [Some 1200, Some 800, None, Some 2000] =
     [Some (1/3), Some 0, Some (1/3), Some 1]"
  by code_simp

lemma ranks_grade:
  "map_ordered plain_lib [''high'', ''mid'', ''low'']
     (ObjCol [Str ''low'', Str ''high'', Str ''mid'', Str ''low'']) =
     NumCol [Some 2, Some 0, Some 1, Some 2]"
  by code_simp

lemma target_responded:
  "prepare_target plain_lib (ObjCol [Str ''Yes'', Str ''no'', Str ''Yes'', Str ''no'']) =
     Inr (NumCol [Some 1, Some 0, Some 1, Some 0])"
  by code_simp

lemma categorical_raw:
  "categorical_loop plain_lib raw_config [''region'', ''grade''] raw_frame [] =
     Inr (\<lparr>nrows = 4,
           cols = [(''responded'', ObjCol [Str ''Yes'', Str ''no'', Str ''Yes'', Str ''no'']),
                   (''income'', ObjCol [Str ''$1,200'', Str ''800'', Null, Str ''2000'']),
                   (''region'', ObjCol [Str ''east'', Str ''west'', Str ''MISSING'', Str ''east'']),
                   (''grade'', NumCol [Some 2, Some 0, Some 1, Some 2])]\<rparr>,
          [[(''region_MISSING'', NumCol [Some 0, Some 0, Some 1, Some 0]),
            (''region_east'', NumCol [Some 1, Some 0, Some 0, Some 1]),
            (''region_west'', NumCol [Some 0, Some 1, Some 0, Some 0])]])"
  by (simp add: raw_frame_def raw_config_def series_def details_of_def fillna_missing_def
      set_col_def get_dummies_def categories_region ranks_grade)

lemma validate_prepared_raw:
  "validate_prepared_data plain_lib prepared_raw_frame raw_config = Inr ()"
  by (simp add: validate_prepared_data_def prepared_raw_frame_def raw_config_def has_missing_def
      non_numeric_def columns_def series_def cell_numeric_def constant_cols_def)

lemma prepare_raw_frame:
  "prepare_analysis_data plain_lib raw_frame raw_config = Inr prepared_raw_frame"
proof -
  have cats: "categorical_variables raw_config = [''region'', ''grade'']"
    and nums: "numerical_variables raw_config = [''income'']"
    and tgt: "target_variable raw_config = ''responded''"
    by (simp_all add: raw_config_def)
  show ?thesis
    unfolding prepare_analysis_data_def cats nums tgt categorical_raw
    by (simp add: concat_dummies_def series_def set_col_def details_of_def raw_config_def
        parse_income transform_income target_responded drop_columns_def columns_def
        keep_cols_def starts_with_def select_columns_def
        validate_prepared_raw[unfolded prepared_raw_frame_def raw_config_def] prepared_raw_frame_def)
qed

lemma columns_set_col: "columns (set_col df n c) = columns df"
  by (simp add: columns_def set_col_def comp_def if_distrib[of fst] cong: if_cong)

lemma dummies_names:
  "n \<in> fst ` set (get_dummies lib v c) \<Longrightarrow> starts_with n (v @ ''_'')"
  by (auto simp: get_dummies_def starts_with_def)

lemma categorical_loop_columns:
  assumes "categorical_loop lib cfg vars df dummies = Inr (df1, dummies1)"
  shows "columns df1 = columns df"
    and "\<forall>n\<in>fst ` set (concat dummies1).
           n \<in> fst ` set (concat dummies) \<or>
           (\<exists>v\<in>set vars. \<not> has_order (details_of cfg v) \<and> starts_with n (v @ ''_''))"
  using assms
proof (induction vars arbitrary: df dummies)
  case Nil
  { case 1 then show ?case by simp }
  { case 2 then show ?case by simp }
next
  case (Cons v vars)
  { case 1
    then show ?case
      using Cons.IH(1) by (auto simp: Let_def columns_set_col split: sum.splits if_splits option.splits) }
  { case 2
    show ?case
    proof (cases "has_order (details_of cfg v)")
      case True
      with 2 obtain c order where
        "categorical_loop lib cfg vars (set_col df v (map_ordered lib order (fillna_missing c))) dummies
           = Inr (df1, dummies1)"
        by (auto simp: Let_def split: sum.splits option.splits)
      from Cons.IH(2)[OF this] show ?thesis by auto
    next
      case False
      with 2 obtain c where
        "categorical_loop lib cfg vars (set_col df v (fillna_missing c))
           (dummies @ [get_dummies lib v (fillna_missing c)]) = Inr (df1, dummies1)"
        by (auto simp: Let_def split: sum.splits)
      from Cons.IH(2)[OF this]
      have ih: "\<forall>n\<in>fst ` set (concat dummies1).
           n \<in> fst ` set (concat dummies) \<or> n \<in> fst ` set (get_dummies lib v (fillna_missing c)) \<or>
           (\<exists>v\<in>set vars. \<not> has_order (details_of cfg v) \<and> starts_with n (v @ ''_''))"
        by (simp add: image_Un)
      show ?thesis
      proof
        fix n assume "n \<in> fst ` set (concat dummies1)"
        with ih have "n \<in> fst ` set (concat dummies) \<or>
           n \<in> fst ` set (get_dummies lib v (fillna_missing c)) \<or>
           (\<exists>v\<in>set vars. \<not> has_order (details_of cfg v) \<and> starts_with n (v @ ''_''))"
          by blast
        then show "n \<in> fst ` set (concat dummies) \<or>
           (\<exists>u\<in>set (v # vars). \<not> has_order (details_of cfg u) \<and> starts_with n (u @ ''_''))"
          using False dummies_names[of n lib v "fillna_missing c"] by auto
      qed
    qed }
qed

lemma numerical_loop_columns:
  "numerical_loop lib cfg vars df = Inr df2 \<Longrightarrow> columns df2 = columns df"
  by (induction vars arbitrary: df) (auto simp: columns_set_col split: sum.splits)

lemma drop_columns_names:
  "drop_columns df names = Inr df3 \<Longrightarrow> set (columns df3) = set (columns df) - set names"
  by (auto simp: drop_columns_def columns_def split: list.splits)

lemma select_columns_names:
  "select_columns df names = Inr df4 \<Longrightarrow> set (columns df4) \<subseteq> set names \<inter> set (columns df)"
  by (auto simp: select_columns_def columns_def split: list.splits)

lemma keep_cols_names:
  "n \<in> set (keep_cols cfg df) \<Longrightarrow>
   n = target_variable cfg \<or> n \<in> set (numerical_variables cfg) \<or>
   (\<exists>cat\<in>set (categorical_variables cfg). starts_with n (cat @ ''_''))"
  by (auto simp: keep_cols_def list_ex_iff)

lemma prepare_stages:
  assumes "prepare_analysis_data lib df cfg = Inr out"
  obtains df1 dummies df2 t t' df3 where
    "categorical_loop lib cfg (categorical_variables cfg) df [] = Inr (df1, dummies)"
    "numerical_loop lib cfg (numerical_variables cfg) (concat_dummies df1 dummies) = Inr df2"
    "series df2 (target_variable cfg) = Inr t"
    "prepare_target lib t = Inr t'"
    "drop_columns (set_col df2 (target_variable cfg) t') (categorical_variables cfg) = Inr df3"
    "select_columns df3 (keep_cols cfg df3) = Inr out"
    "validate_prepared_data lib out cfg = Inr ()"
  using assms
  by (auto simp: prepare_analysis_data_def split: sum.splits prod.splits)

text \<open>
  Claim C10. In the frame the transformer returns, no column bears the name of a declared
  categorical variable, so the rank-mapped column of an ordered variable is dropped with
  the other categorical columns; every column is the target, a declared numerical
  variable, or has a name starting with a declared categorical variable's name and an
  underscore; and every column that was not in the input frame is an indicator of an
  unordered categorical variable.
\<close>

theorem final_columns:
  assumes "prepare_analysis_data lib df cfg = Inr out"
  shows "(\<forall>v\<in>set (categorical_variables cfg). v \<notin> set (columns out)) \<and>
         (\<forall>n\<in>set (columns out).
            n = target_variable cfg \<or> n \<in> set (numerical_variables cfg) \<or>
            (\<exists>cat\<in>set (categorical_variables cfg). starts_with n (cat @ ''_''))) \<and>
         (\<forall>n\<in>set (columns out).
            n \<in> set (columns df) \<or>
            (\<exists>v\<in>set (categorical_variables cfg).
               \<not> has_order (details_of cfg v) \<and> starts_with n (v @ ''_'')))"
proof -
  from assms obtain df1 dummies df2 t t' df3 where
    cl: "categorical_loop lib cfg (categorical_variables cfg) df [] = Inr (df1, dummies)"
    and nl: "numerical_loop lib cfg (numerical_variables cfg) (concat_dummies df1 dummies) = Inr df2"
    and dr: "drop_columns (set_col df2 (target_variable cfg) t') (categorical_variables cfg) = Inr df3"
    and sel: "select_columns df3 (keep_cols cfg df3) = Inr out"
    by (rule prepare_stages)
  have sub: "set (columns out) \<subseteq> set (keep_cols cfg df3) \<inter> set (columns df3)"
    by (rule select_columns_names[OF sel])
  have df3: "set (columns df3) = set (columns df2) - set (categorical_variables cfg)"
    using drop_columns_names[OF dr] by (simp add: columns_set_col)
  have df2: "columns df2 = columns df @ map fst (concat dummies)"
    using numerical_loop_columns[OF nl] categorical_loop_columns(1)[OF cl]
    by (simp add: concat_dummies_def columns_def)
  have a: "\<forall>v\<in>set (categorical_variables cfg). v \<notin> set (columns out)"
    using sub df3 by auto
  have b: "\<forall>n\<in>set (columns out).
            n = target_variable cfg \<or> n \<in> set (numerical_variables cfg) \<or>
            (\<exists>cat\<in>set (categorical_variables cfg). starts_with n (cat @ ''_''))"
    using sub keep_cols_names by blast
  have c: "\<forall>n\<in>set (columns out).
            n \<in> set (columns df) \<or>
            (\<exists>v\<in>set (categorical_variables cfg).
               \<not> has_order (details_of cfg v) \<and> starts_with n (v @ ''_''))"
  proof
    fix n assume "n \<in> set (columns out)"
    with sub df3 have "n \<in> set (columns df2)" by auto
    then have "n \<in> set (columns df) \<or> n \<in> fst ` set (concat dummies)"
      by (auto simp: df2)
    then show "n \<in> set (columns df) \<or>
            (\<exists>v\<in>set (categorical_variables cfg).
               \<not> has_order (details_of cfg v) \<and> starts_with n (v @ ''_''))"
      using categorical_loop_columns(2)[OF cl] by auto
  qed
  from a b c show ?thesis by blast
qed

theorem final_columns_witness:
  "prepare_analysis_data plain_lib raw_frame raw_config = Inr prepared_raw_frame \<and>
   has_order (details_of raw_config ''grade'') \<and>
   ''grade'' \<in> set (columns raw_frame) \<and>
   ''grade'' \<notin> set (columns prepared_raw_frame) \<and>
   columns prepared_raw_frame =
     [''responded'', ''income'', ''region_MISSING'', ''region_east'', ''region_west'']"
proof -
  have o: "has_order (details_of raw_config ''grade'')"
    by (simp add: details_of_def raw_config_def)
  have c: "''grade'' \<in> set (categorical_variables raw_config)"
    by (simp add: raw_config_def)
  have r: "''grade'' \<in> set (columns raw_frame)"
    by (simp add: columns_def raw_frame_def)
  have n: "columns prepared_raw_frame =
     [''responded'', ''income'', ''region_MISSING'', ''region_east'', ''region_west'']"
    by (simp add: columns_def prepared_raw_frame_def)
  from final_columns[OF prepare_raw_frame] c
  have "''grade'' \<notin> set (columns prepared_raw_frame)" by blast
  with prepare_raw_frame o r n show ?thesis by blast
qed


section \<open>Properties of the Dataset Validator\<close>

text \<open>
  Claim C9 (as amended). The validator raises at the first check that fails, in the order
  missing cells, non-numeric columns, target values, constant columns, and its error
  carries the fixed message of that check only: with a missing cell the error is
  "Dataset contains missing values" whatever else is wrong, and so on down the list. It
  returns normally only if no check fails.
\<close>

theorem validate_first_failure:
  "(has_missing df \<longrightarrow>
      validate_prepared_data lib df cfg = Inl (ValueError ''Dataset contains missing values'')) \<and>
   (\<not> has_missing df \<and> non_numeric lib df \<noteq> [] \<longrightarrow>
      validate_prepared_data lib df cfg = Inl (ValueError ''Non-numeric values found'')) \<and>
   (\<not> has_missing df \<and> non_numeric lib df = [] \<and>
    series df (target_variable cfg) = Inr t \<and>
    \<not> (list_ex is_Str (col_cells t) \<and> list_ex is_Num (col_cells t)) \<and>
    \<not> list_all (\<lambda>x. x = Num 0 \<or> x = Num 1) (col_cells t) \<longrightarrow>
      validate_prepared_data lib df cfg = Inl (ValueError ''Target must be binary (0/1)'')) \<and>
   (\<not> has_missing df \<and> non_numeric lib df = [] \<and>
    series df (target_variable cfg) = Inr t \<and>
    list_all (\<lambda>x. x = Num 0 \<or> x = Num 1) (col_cells t) \<and> constant_cols df \<noteq> [] \<longrightarrow>
      validate_prepared_data lib df cfg = Inl (ValueError ''Constant columns found'')) \<and>
   (validate_prepared_data lib df cfg = Inr () \<longrightarrow>
      \<not> has_missing df \<and> non_numeric lib df = [] \<and> constant_cols df = [] \<and>
      (\<exists>t. series df (target_variable cfg) = Inr t \<and>
           list_all (\<lambda>x. x = Num 0 \<or> x = Num 1) (col_cells t)))"
proof -
  have mixed: "\<not> (list_ex is_Str cs \<and> list_ex is_Num cs)"
    if "list_all (\<lambda>x. x = Num 0 \<or> x = Num 1) cs" for cs
    using that by (auto simp: list_all_iff list_ex_iff)
  show ?thesis
    using mixed[of "col_cells t"]
    by (auto simp: validate_prepared_data_def split: sum.splits if_splits)
qed

theorem validate_first_failure_witness:
  "has_missing flawed_frame \<and> constant_cols flawed_frame = [''flag''] \<and>
   validate_prepared_data plain_lib flawed_frame raw_config =
     Inl (ValueError ''Dataset contains missing values'')"
proof -
  have m: "has_missing flawed_frame"
    by (simp add: has_missing_def flawed_frame_def)
  have c: "constant_cols flawed_frame = [''flag'']"
    by (simp add: constant_cols_def flawed_frame_def)
  from validate_first_failure[of flawed_frame plain_lib raw_config] m c show ?thesis by blast
qed

text \<open>
  Claim C9 as stated fails: a frame with a missing cell and a constant column gets the
  error about missing values, which says nothing about the constant column.
\<close>

theorem validate_single_message_counterexample:
  "validate_prepared_data plain_lib flawed_frame raw_config =
     Inl (ValueError ''Dataset contains missing values'') \<and>
   has_missing flawed_frame \<and> constant_cols flawed_frame = [''flag'']"
  by (simp add: validate_prepared_data_def has_missing_def constant_cols_def flawed_frame_def)


section \<open>Properties of the orchestrator\<close>

text \<open>The hundred-row run, stage by stage.\<close>

lemma fillna_complete: "list_all (\<lambda>x. x \<noteq> None) xs \<Longrightarrow> fillna m xs = xs"
  by (induction xs) (auto simp: fillna_def)

lemma present_values_complete: "present_values (map Some vs) = vs"
  by (induction vs) (auto simp: present_values_def)

lemma parse_visits:
  "parse_numeric plain_lib
     (ObjCol (replicate 10 (Str ''3'') @ replicate 40 (Str ''2'') @ replicate 50 (Str ''1''))) =
   replicate 10 (Some 3) @ replicate 40 (Some 2) @ replicate 50 (Some 1)"
  by (simp add: parse_numeric_def plain_lib_def strip_non_numeric_def parse_decimal_def
      parse_unsigned_def is_digit_def nat_of_digits_def)

lemma transform_visits:
  "transform_numeric (Some ''Higher values are better'')
     (replicate 10 (Some 3) @ replicate 40 (Some 2) @ replicate 50 (Some 1)) =
   replicate 10 (Some 1) @ replicate 40 (Some (1/2)) @ replicate 50 (Some 0)"
proof -
  let ?vs = "replicate 10 3 @ replicate 40 2 @ replicate 50 (1::real)"
  let ?xs = "replicate 10 (Some 3) @ replicate 40 (Some 2) @ replicate 50 (Some (1::real))"
  have xs: "?xs = map Some ?vs" by simp
  have pv: "present_values ?xs = ?vs" unfolding xs by (rule present_values_complete)
  have full: "list_all (\<lambda>x. x \<noteq> None) ?xs" by (simp add: list_all_iff)
  have ne: "?vs \<noteq> []" by simp
  have mn: "reduce min ?vs = 1"
    by (simp only: reduce_min_Min[OF ne]) simp
  have mx: "reduce max ?vs = 3"
    by (simp only: reduce_max_Max[OF ne]) simp
  have "transform_numeric (Some ''Higher values are better'') ?xs = min_max_scale ?xs"
    by (simp add: transform_numeric_def Let_def fillna_complete[OF full])
  also have "\<dots> = map (map_option (\<lambda>v. (v - 1) / (3 - 1))) ?xs"
    unfolding min_max_scale_def pv mn mx Let_def using ne by simp
  also have "\<dots> = replicate 10 (Some 1) @ replicate 40 (Some (1/2)) @ replicate 50 (Some 0)"
    by simp
  finally show ?thesis .
qed

lemma target_hundred:
  "prepare_target plain_lib (ObjCol (replicate 10 (Str ''1'') @ replicate 90 (Str ''0''))) =
     Inr (NumCol (replicate 10 (Some 1) @ replicate 90 (Some 0)))"
proof -
  have "length (remdups (replicate 10 (Str ''1'') @ replicate 90 (Str ''0''))) =
        card {Str ''1'', Str ''0''}"
    by (simp add: length_remdups_card_conv)
  also have "\<dots> = 2" by simp
  finally show ?thesis
    by (simp add: prepare_target_def to_lower_def truthy_def)
qed

lemma validate_hundred:
  "validate_prepared_data plain_lib hundred_prepared hundred_config = Inr ()"
proof -
  have m: "\<not> has_missing hundred_prepared"
    by (simp add: has_missing_def hundred_prepared_def comp_def)
  have n: "non_numeric plain_lib hundred_prepared = []"
    by (simp add: non_numeric_def hundred_prepared_def columns_def series_def cell_numeric_def
        list_all_iff)
  have c1: "length (remdups (replicate 10 (Num 1) @ replicate 90 (Num 0))) = 2"
    by (simp add: length_remdups_card_conv)
  have c2: "length (remdups (replicate 10 (Num 1) @ replicate 40 (Num (1/2)) @ replicate 50 (Num 0))) = 3"
    by (simp add: length_remdups_card_conv)
  have c: "constant_cols hundred_prepared = []"
    by (simp add: constant_cols_def hundred_prepared_def c1 c2)
  have t: "series hundred_prepared ''responded'' =
             Inr (NumCol (replicate 10 (Some 1) @ replicate 90 (Some 0)))"
    by (simp add: series_def hundred_prepared_def)
  show ?thesis
    by (simp add: validate_prepared_data_def m n c hundred_config_def t list_all_iff list_ex_iff)
qed

lemma prepare_hundred:
  "prepare_analysis_data plain_lib hundred_table hundred_config = Inr hundred_prepared"
  by (simp add: prepare_analysis_data_def hundred_config_def hundred_table_def concat_dummies_def
      series_def set_col_def details_of_def parse_visits transform_visits target_hundred
      drop_columns_def columns_def keep_cols_def starts_with_def select_columns_def
      validate_hundred[unfolded hundred_prepared_def hundred_config_def] hundred_prepared_def)


lemma generate_hundred:
  "generate_scoring_rules hundred_prepared [1/2] [''visits''] hundred_config 1000 1000 =
     Inr hundred_rules"
proof -
  let ?vs = "replicate 10 1 @ replicate 40 (1/2) @ replicate 50 (0::real)"
  let ?xs = "replicate 10 (Some 1) @ replicate 40 (Some (1/2)) @ replicate 50 (Some (0::real))"
  have xs: "?xs = map Some ?vs" by simp
  have pv: "present_values ?xs = ?vs" unfolding xs by (rule present_values_complete)
  have ne: "?vs \<noteq> []" by simp
  have mn: "reduce min ?vs = 0"
    by (simp only: reduce_min_Min[OF ne]) simp
  have mx: "reduce max ?vs = 1"
    by (simp only: reduce_max_Max[OF ne]) simp
  have na: "notna_any (NumCol ?xs)"
    by (simp add: notna_any_def list_ex_iff)
  have c: "map_of (cols hundred_prepared) ''visits'' = Some (NumCol ?xs)"
    by (simp add: hundred_prepared_def)
  have d: "details_of hundred_config ''visits'' =
             \<lparr>vtype = Some ''numerical'', has_order = False, value_order = None,
              direction = Some ''Higher values are better'', vrange = None\<rparr>"
    by (simp add: details_of_def hundred_config_def)
  have rb: "range_bounds (details_of hundred_config ''visits'') (NumCol ?xs) = Inr (Num 0, Num 1)"
    by (simp add: range_bounds_def d configured_bounds_def col_min_def col_max_def
        col_extreme_def pv mn mx)
  have vb: "var_base_of ''visits'' = ''visits''" by (simp add: var_base_of_def)
  show ?thesis
    by (simp add: generate_scoring_rules_def feature_rules_def adjusted_rules_def var_type_of_def
        vb d c na rb[unfolded d] py_int_def hundred_rules_def
        int_of_product_def float_of_int_def round53_def seven_tenths_def three_tenths_def
        excess_bits.simps)
qed

lemma apply_hundred:
  "\<exists>scores. apply_scoring_rules hundred_prepared hundred_rules = Inr scores"
proof -
  have wf: "wf_frame hundred_prepared"
    by (simp add: wf_frame_def hundred_prepared_def col_len_def columns_def)
  have b: "find is_base hundred_rules = Some (base_rule 1000)"
    by (simp add: hundred_rules_def is_base_def base_rule_def)
  have cmp: "list_all (comparable hundred_prepared) hundred_rules"
    by (simp add: hundred_rules_def comparable_def is_base_def base_rule_def threshold_rule_def
        is_threshold_def hundred_prepared_def list_all_iff)
  show ?thesis
    using apply_rules_additive[OF wf cmp, of "replicate (nrows hundred_prepared) 1000"] b
    by (simp add: apply_scoring_rules_def base_rule_def)
qed

lemma run_hundred:
  "run_analysis plain_lib fixed_fit hundred_config hundred_table =
     Success [(''baseline_rate'', Some (1/10)), (''top_decile_rate'', Some 1)]
       (map format_rule_description hundred_rules) table_descending"
proof -
  have y: "target_values hundred_prepared hundred_config = Inr targets_top_ten"
  proof -
    have "replicate 10 (Some 1) @ replicate 90 (Some (0::real)) = map Some targets_top_ten"
      by (simp add: targets_top_ten_def)
    then show ?thesis
      by (simp add: target_values_def series_def hundred_prepared_def hundred_config_def
          present_values_complete)
  qed
  have X: "drop_columns hundred_prepared [target_variable hundred_config] =
             Inr \<lparr>nrows = 100,
                  cols = [(''visits'', NumCol (replicate 10 (Some 1) @ replicate 40 (Some (1/2)) @
                                 replicate 50 (Some 0)))]\<rparr>"
    by (simp add: drop_columns_def hundred_prepared_def hundred_config_def columns_def)
  have my: "mean targets_top_ten = Some (1/10)"
    by (simp add: mean_def targets_top_ten_def sum_list_replicate)
  have src: "source_table hundred_config = Some ''RAW_DATA.UPLOAD_20240101''"
    by (simp add: hundred_config_def)
  have rows: "nrows hundred_table = 100" by (simp add: hundred_table_def)
  have top: "response_rate (last table_descending) = Some 1"
    by (simp add: table_descending_def)
  obtain scores where a: "apply_scoring_rules hundred_prepared hundred_rules = Inr scores"
    using apply_hundred by blast
  show ?thesis
    unfolding run_analysis_def
    by (simp add: src rows prepare_hundred y X fixed_fit_def columns_def generate_hundred a
        decile_table_hundred my top)
qed

text \<open>
  Claim C4 fails on the code. Every successful run returns a metrics mapping with exactly
  the two keys \<open>baseline_rate\<close> and \<open>top_decile_rate\<close>: the baseline rate is the mean of
  the targets and the top-decile rate is the response rate of the last record of the
  decile table. No AUC, average precision or cross-validated AUC is computed or
  returned.
\<close>

theorem successful_run_metrics:
  assumes "run_analysis lib fit cfg table = Success m rules rates"
  shows "map fst m = [''baseline_rate'', ''top_decile_rate''] \<and>
         map_of m ''auc_score'' = None \<and>
         map_of m ''avg_precision'' = None \<and>
         map_of m ''cv_scores'' = None \<and>
         length rates = 10 \<and>
         map_of m ''top_decile_rate'' = Some (response_rate (last rates))"
proof -
  from assms obtain y ps where m: "m = [(''baseline_rate'', mean y),
                                       (''top_decile_rate'', response_rate (last rates))]"
    and d: "decile_table y ps = Inr rates"
    by (auto simp: run_analysis_def split: if_splits sum.splits prod.splits)
  from decile_table_totals[OF d] have "length rates = 10" by blast
  with m show ?thesis by simp
qed

theorem successful_run_metrics_witness:
  "run_analysis plain_lib fixed_fit hundred_config hundred_table =
     Success [(''baseline_rate'', Some (1/10)), (''top_decile_rate'', Some 1)]
       (map format_rule_description hundred_rules) table_descending \<and>
   nrows hundred_table = 100 \<and>
   map fst [(''baseline_rate'', Some (1/10)), (''top_decile_rate'', Some (1::real))] =
     [''baseline_rate'', ''top_decile_rate''] \<and>
   map_of [(''baseline_rate'', Some (1/10)), (''top_decile_rate'', Some (1::real))] ''auc_score'' = None \<and>
   length table_descending = 10"
proof -
  have rows: "nrows hundred_table = 100" by (simp add: hundred_table_def)
  from successful_run_metrics[OF run_hundred] run_hundred rows show ?thesis by blast
qed

end
